theory Spec2Isabelle
  imports Main
begin

section \<open>FileSource: the buffer-filling engine of nes-sources/src/FileSource.cpp\<close>

text \<open>
  The development embeds \<^verbatim>\<open>FileSource::open\<close>, \<^verbatim>\<open>close\<close>,
  \<^verbatim>\<open>decompressNextBlock\<close> and \<^verbatim>\<open>fillTupleBuffer\<close>. A byte is a
  \<^typ>\<open>char\<close>, a buffer a \<^typ>\<open>string\<close> whose length is its capacity. The
  cursors and the local \<^verbatim>\<open>size_t\<close> values of the source are bounded by the size
  of one of the buffers, so they are natural numbers. An exception leaves the object as
  it was mutated up to the \<^verbatim>\<open>throw\<close>, so every operation returns its outcome
  together with the state.
\<close>

subsection \<open>Errors and outcomes\<close>

datatype exception = InvalidConfigParameter string

datatype 'a outcome = Threw exception | Returned 'a

text \<open>
  Modelled from the spec: the three error kinds of its error taxonomy. The source raises
  \<^verbatim>\<open>InvalidConfigParameter\<close> only, which is its configuration error.
\<close>

datatype error_kind = ConfigurationError | IOError | DecompressionError

fun kind_of :: "exception \<Rightarrow> error_kind" where
  "kind_of (InvalidConfigParameter msg) = ConfigurationError"

subsection \<open>The input file stream\<close>

text \<open>
  \<^verbatim>\<open>std::ifstream\<close>: whether a file is attached, the bytes not yet extracted, and
  the state bits \<^verbatim>\<open>eofbit\<close> and \<^verbatim>\<open>failbit\<close>. \<^verbatim>\<open>operator!\<close> is
  \<^verbatim>\<open>fail()\<close>; \<^verbatim>\<open>read\<close> extracts only from a stream that is
  \<^verbatim>\<open>good()\<close>, sets \<^verbatim>\<open>failbit\<close> otherwise, and sets both bits when it
  gets fewer bytes than asked for. The first component of \<open>istream_read\<close> is the
  bytes extracted (\<^verbatim>\<open>gcount()\<close> is their number).
\<close>

record ifstream =
  is_open :: bool
  unread :: string
  eofbit :: bool
  failbit :: bool

definition good :: "ifstream \<Rightarrow> bool" where
  "good f = (\<not> eofbit f \<and> \<not> failbit f)"

definition istream_read :: "ifstream \<Rightarrow> nat \<Rightarrow> string \<times> ifstream" where
  "istream_read f n =
     (if \<not> good f then ([], f\<lparr>failbit := True\<rparr>)
      else
        let got = (if is_open f then take n (unread f) else [])
        in (got,
            f\<lparr>unread := drop (length got) (unread f),
              eofbit := (length got \<noteq> n),
              failbit := (length got \<noteq> n)\<rparr>))"

text \<open>
  The operating system as \<^verbatim>\<open>open\<close> sees it: \<^verbatim>\<open>realpath\<close> (\<open>None\<close> is the
  null pointer it returns on failure), the files that can be opened for reading with
  their content, and the text \<^verbatim>\<open>getErrorMessageFromERRNO\<close> gives once the stream
  could not be opened on a name. \<^verbatim>\<open>errno\<close> is then the one of the failed open,
  the last call to fail: also when \<^verbatim>\<open>realpath\<close> has failed before it, and the
  name handed to the stream is the null pointer.
\<close>

record os =
  realpath :: "string \<Rightarrow> string option"
  files :: "string \<Rightarrow> string option"
  errnoMessage :: "string option \<Rightarrow> string"

definition closed_stream :: ifstream where
  "closed_stream = \<lparr>is_open = False, unread = [], eofbit = False, failbit = False\<rparr>"

definition ifstream_ctor :: "os \<Rightarrow> string option \<Rightarrow> ifstream" where
  "ifstream_ctor env name =
     (case name of
        None \<Rightarrow> closed_stream\<lparr>failbit := True\<rparr>
      | Some p \<Rightarrow>
          (case files env p of
             None \<Rightarrow> closed_stream\<lparr>failbit := True\<rparr>
           | Some content \<Rightarrow> closed_stream\<lparr>is_open := True, unread := content\<rparr>))"

definition ifstream_close :: "ifstream \<Rightarrow> ifstream" where
  "ifstream_close f =
     (if is_open f then f\<lparr>is_open := False\<rparr> else f\<lparr>failbit := True\<rparr>)"

subsection \<open>The zstd library\<close>

text \<open>
  The library is not part of the repository: it is a parameter. One call of
  \<^verbatim>\<open>ZSTD_decompressStream\<close> is given the context, the input from
  \<^verbatim>\<open>input.pos\<close> on and the room left in the output; it answers with the error
  name when \<^verbatim>\<open>ZSTD_isError\<close> holds of its return value, the context as it left it,
  the number of input bytes consumed and the bytes written to the output.
\<close>

datatype 'c zstd_result =
  ZRes (zerror: "string option") (zctx: 'c) (zconsumed: nat) (zout: string)

record 'c zstd =
  ZSTD_createDCtx :: "'c option"
  ZSTD_DStreamInSize :: nat
  ZSTD_DStreamOutSize :: nat
  ZSTD_decompressStream :: "'c \<Rightarrow> string \<Rightarrow> nat \<Rightarrow> 'c zstd_result"

text \<open>
  What the library's interface promises of one call: \<^verbatim>\<open>input.pos\<close> and
  \<^verbatim>\<open>output.pos\<close> stay within their buffers.
\<close>

definition zstd_contract :: "'c zstd \<Rightarrow> bool" where
  "zstd_contract lib =
     (\<forall>c inp room.
        zconsumed (ZSTD_decompressStream lib c inp room) \<le> length inp \<and>
        length (zout (ZSTD_decompressStream lib c inp room)) \<le> room)"

text \<open>
  Forward progress: a successful call with input left and room in the output consumes
  or produces something.
\<close>

definition zstd_progress :: "'c zstd \<Rightarrow> bool" where
  "zstd_progress lib =
     (\<forall>c inp room.
        inp \<noteq> [] \<and> 0 < room \<and> zerror (ZSTD_decompressStream lib c inp room) = None \<longrightarrow>
        0 < zconsumed (ZSTD_decompressStream lib c inp room) \<or>
        zout (ZSTD_decompressStream lib c inp room) \<noteq> [])"

subsection \<open>The source object\<close>

record 'c FileSource =
  filePath :: string
  compressionType :: string
  inputFile :: ifstream
  zstdContext :: "'c option"
  compressedBuffer :: string
  decompressedBuffer :: string
  decompressedOffset :: nat
  decompressedSize :: nat
  endOfCompressedStream :: bool
  totalNumBytesRead :: nat

text \<open>
  The class declaration (\<^verbatim>\<open>FileSource.hpp\<close>) is not among the sources, so the
  types and initial values of the members are taken from their use: the constructor sets
  the two configuration values, and the members it does not mention are those of a fresh
  object: no stream, a null context (\<^verbatim>\<open>close\<close> tests it against
  \<^verbatim>\<open>nullptr\<close>), empty buffers, zero cursors. The byte counter is read with
  \<^verbatim>\<open>load()\<close>, an atomic that starts at zero; it is the unbounded Byte Counter of
  the spec, a natural number.
\<close>

definition FileSource_ctor :: "string \<Rightarrow> string \<Rightarrow> 'c FileSource" where
  "FileSource_ctor path compression =
     \<lparr>filePath = path, compressionType = compression, inputFile = closed_stream,
      zstdContext = None, compressedBuffer = [], decompressedBuffer = [],
      decompressedOffset = 0, decompressedSize = 0, endOfCompressedStream = False,
      totalNumBytesRead = 0\<rparr>"

definition resize :: "string \<Rightarrow> nat \<Rightarrow> string" where
  "resize v n = take n v @ replicate (n - length v) (CHR 0x00)"

text \<open>
  \<^verbatim>\<open>memcpy(dst + dpos, src + spos, n)\<close>. Copying from or to bytes outside a buffer
  is undefined in the source; the cursor invariant below excludes it.
\<close>

definition memcpy :: "string \<Rightarrow> nat \<Rightarrow> string \<Rightarrow> nat \<Rightarrow> nat \<Rightarrow> string" where
  "memcpy dst dpos src spos n = take dpos dst @ take n (drop spos src) @ drop (dpos + n) dst"

definition "open" :: "os \<Rightarrow> 'c zstd \<Rightarrow> 'c FileSource \<Rightarrow> unit outcome \<times> 'c FileSource" where
  "open env lib s =
     (let realCSVPath = realpath env (filePath s);
          s1 = s\<lparr>inputFile := ifstream_ctor env realCSVPath\<rparr>
      in if failbit (inputFile s1)
         then (Threw (InvalidConfigParameter
                  (''Could not determine absolute pathname: '' @ filePath s1 @ '' - ''
                     @ errnoMessage env realCSVPath)), s1)
         else if compressionType s1 = ''zstd''
         then
           (let s2 = s1\<lparr>zstdContext := ZSTD_createDCtx lib\<rparr>
            in if zstdContext s2 = None
               then (Threw (InvalidConfigParameter
                        ''Failed to create ZSTD decompression context''), s2)
               else (Returned (),
                     s2\<lparr>compressedBuffer := resize (compressedBuffer s2) (ZSTD_DStreamInSize lib),
                        decompressedBuffer :=
                          resize (decompressedBuffer s2) (ZSTD_DStreamOutSize lib),
                        decompressedOffset := 0,
                        decompressedSize := 0,
                        endOfCompressedStream := False\<rparr>))
         else if compressionType s1 \<noteq> ''none'' \<and> compressionType s1 \<noteq> []
         then (Threw (InvalidConfigParameter
                  (''Unsupported compression type: '' @ compressionType s1)), s1)
         else (Returned (), s1))"

definition close :: "'c FileSource \<Rightarrow> 'c FileSource" where
  "close s = s\<lparr>inputFile := ifstream_close (inputFile s), zstdContext := None\<rparr>"

subsection \<open>decompressNextBlock\<close>

text \<open>
  The loop \<^verbatim>\<open>while (input.pos < input.size)\<close>. It runs as long as the library
  neither consumes the input nor fills the output, so it is a partial function: \<open>None\<close>
  is a call that does not return. A null context handed to the library is undefined
  behaviour and modelled the same way.
\<close>

partial_function (option) decompressLoop ::
  "'c zstd \<Rightarrow> string \<Rightarrow> nat \<Rightarrow> 'c FileSource \<Rightarrow> (unit outcome \<times> 'c FileSource) option"
where
  "decompressLoop lib input pos s =
     (if pos < length input then
        (case zstdContext s of
           None \<Rightarrow> None
         | Some ctx \<Rightarrow>
             (let r = ZSTD_decompressStream lib ctx (drop pos input)
                        (length (decompressedBuffer s) - decompressedSize s);
                  s1 = s\<lparr>zstdContext := Some (zctx r),
                         decompressedBuffer :=
                           memcpy (decompressedBuffer s) (decompressedSize s) (zout r) 0
                             (length (zout r))\<rparr>
              in case zerror r of
                   Some name \<Rightarrow>
                     Some (Threw (InvalidConfigParameter
                             (''ZSTD decompression error: '' @ name)), s1)
                 | None \<Rightarrow>
                     (let s2 = s1\<lparr>decompressedSize := decompressedSize s1 + length (zout r)\<rparr>
                      in if decompressedSize s2 \<ge> length (decompressedBuffer s2)
                         then Some (Returned (), s2)
                         else decompressLoop lib input (pos + zconsumed r) s2)))
      else Some (Returned (), s))"

definition decompressNextBlock ::
  "'c zstd \<Rightarrow> 'c FileSource \<Rightarrow> (bool outcome \<times> 'c FileSource) option" where
  "decompressNextBlock lib s =
     (if endOfCompressedStream s then Some (Returned False, s)
      else
        let (got, f) = istream_read (inputFile s) (length (compressedBuffer s));
            s1 = s\<lparr>inputFile := f,
                   compressedBuffer := memcpy (compressedBuffer s) 0 got 0 (length got)\<rparr>;
            compressedBytesRead = length got
        in if compressedBytesRead = 0
           then Some (Returned False, s1\<lparr>endOfCompressedStream := True\<rparr>)
           else
             (case decompressLoop lib (take compressedBytesRead (compressedBuffer s1)) 0
                     (s1\<lparr>decompressedSize := 0\<rparr>) of
                None \<Rightarrow> None
              | Some (Threw e, s2) \<Rightarrow> Some (Threw e, s2)
              | Some (Returned u, s2) \<Rightarrow>
                  Some (Returned (decompressedSize s2 > 0), s2\<lparr>decompressedOffset := 0\<rparr>)))"

text \<open>
  The decode of one chunk in the words of the spec, to compare the loop with: the bytes
  read are fed to the codec step by step, each step consumes some input and emits bytes
  after those emitted so far, until the chunk is consumed or the output staging buffer
  of the given capacity is full. The result is the codec's error name, or the context
  and the bytes emitted, from the first one on.
\<close>

partial_function (option) spec_decodeChunk ::
  "'c zstd \<Rightarrow> 'c \<Rightarrow> string \<Rightarrow> nat \<Rightarrow> string \<Rightarrow> (string + 'c \<times> string) option"
where
  "spec_decodeChunk lib ctx chunk capacity emitted =
     (if chunk = [] then Some (Inr (ctx, emitted))
      else
        (let r = ZSTD_decompressStream lib ctx chunk (capacity - length emitted)
         in case zerror r of
              Some name \<Rightarrow> Some (Inl name)
            | None \<Rightarrow>
                if capacity \<le> length (emitted @ zout r)
                then Some (Inr (zctx r, emitted @ zout r))
                else spec_decodeChunk lib (zctx r) (drop (zconsumed r) chunk) capacity
                       (emitted @ zout r)))"

text \<open>
  An outcome with its state agrees with that decode, started on a chunk with some bytes
  already emitted: a raise carries the codec's error name in its message; a return
  leaves the context the decode ends with, and the bytes emitted are the valid part of
  the output staging buffer, \<open>decompressedSize\<close> their number.
\<close>

definition decoded_as_spec ::
  "'c zstd \<Rightarrow> 'c \<Rightarrow> string \<Rightarrow> nat \<Rightarrow> string \<Rightarrow> 'a outcome \<times> 'c FileSource \<Rightarrow> bool" where
  "decoded_as_spec lib ctx chunk capacity emitted y =
     (case y of
        (Threw e, s') \<Rightarrow>
          (\<exists>name. spec_decodeChunk lib ctx chunk capacity emitted = Some (Inl name) \<and>
                  e = InvalidConfigParameter (''ZSTD decompression error: '' @ name))
      | (Returned u, s') \<Rightarrow>
          decompressedSize s' \<le> length (decompressedBuffer s') \<and>
          (\<exists>ctx'. zstdContext s' = Some ctx' \<and>
                  spec_decodeChunk lib ctx chunk capacity emitted =
                    Some (Inr (ctx', take (decompressedSize s') (decompressedBuffer s')))))"

subsection \<open>fillTupleBuffer\<close>

datatype FillTupleBufferResult = eos | withBytes nat

text \<open>
  The loop \<^verbatim>\<open>while (totalBytesWritten < bufferSize)\<close> of the zstd branch, over the
  bytes written so far, the destination and the object.
\<close>

partial_function (option) fillLoop ::
  "'c zstd \<Rightarrow> nat \<Rightarrow> nat \<Rightarrow> string \<Rightarrow> 'c FileSource
     \<Rightarrow> ((nat \<times> string) outcome \<times> 'c FileSource) option"
where
  "fillLoop lib bufferSize totalBytesWritten destBuffer s =
     (if totalBytesWritten < bufferSize then
        (if decompressedOffset s < decompressedSize s then
           (let availableDecompressed = decompressedSize s - decompressedOffset s;
                spaceInBuffer = bufferSize - totalBytesWritten;
                bytesToCopy = min availableDecompressed spaceInBuffer
            in fillLoop lib bufferSize (totalBytesWritten + bytesToCopy)
                 (memcpy destBuffer totalBytesWritten (decompressedBuffer s)
                    (decompressedOffset s) bytesToCopy)
                 (s\<lparr>decompressedOffset := decompressedOffset s + bytesToCopy\<rparr>))
         else
           (case decompressNextBlock lib s of
              None \<Rightarrow> None
            | Some (Threw e, s1) \<Rightarrow> Some (Threw e, s1)
            | Some (Returned hasData, s1) \<Rightarrow>
                if \<not> hasData then Some (Returned (totalBytesWritten, destBuffer), s1)
                else fillLoop lib bufferSize totalBytesWritten destBuffer s1))
      else Some (Returned (totalBytesWritten, destBuffer), s))"

text \<open>Both loops run on concrete inputs through their defining equations.\<close>

declare decompressLoop.simps [code] fillLoop.simps [code] spec_decodeChunk.simps [code]

text \<open>
  The tuple buffer is its memory area; \<^verbatim>\<open>getBufferSize()\<close> is its length. The
  call returns the result together with the buffer as it filled it.
\<close>

definition fillTupleBuffer ::
  "'c zstd \<Rightarrow> 'c FileSource \<Rightarrow> string
     \<Rightarrow> ((FillTupleBufferResult \<times> string) outcome \<times> 'c FileSource) option" where
  "fillTupleBuffer lib s tupleBuffer =
     (if compressionType s = ''zstd'' then
        (case fillLoop lib (length tupleBuffer) 0 tupleBuffer s of
           None \<Rightarrow> None
         | Some (Threw e, s1) \<Rightarrow> Some (Threw e, s1)
         | Some (Returned (totalBytesWritten, dest), s1) \<Rightarrow>
             (let s2 = s1\<lparr>totalNumBytesRead := totalNumBytesRead s1 + totalBytesWritten\<rparr>
              in if totalBytesWritten = 0 then Some (Returned (eos, dest), s2)
                 else Some (Returned (withBytes totalBytesWritten, dest), s2)))
      else
        (let (got, f) = istream_read (inputFile s) (length tupleBuffer);
             numBytesRead = length got;
             s1 = s\<lparr>inputFile := f,
                    totalNumBytesRead := totalNumBytesRead s + numBytesRead\<rparr>;
             dest = memcpy tupleBuffer 0 got 0 numBytesRead
         in if numBytesRead = 0 then Some (Returned (eos, dest), s1)
            else Some (Returned (withBytes numBytesRead, dest), s1)))"

subsection \<open>The caller\<close>

text \<open>
  Modelled from the spec: the execution engine, which is not in this source file. It calls
  \<^verbatim>\<open>fillTupleBuffer\<close> with a destination of the same capacity again and again
  and stops at the first end of stream. \<open>drain\<close> lists every result with the bytes
  it delivered, the final \<open>eos\<close> included. The fuel bounds the number of calls;
  \<open>None\<close> is fuel used up or a call that does not return.
\<close>

fun drain ::
  "nat \<Rightarrow> 'c zstd \<Rightarrow> string \<Rightarrow> 'c FileSource
     \<Rightarrow> ((FillTupleBufferResult \<times> string) list outcome \<times> 'c FileSource) option" where
  "drain 0 lib tupleBuffer s = None"
| "drain (Suc fuel) lib tupleBuffer s =
     (case fillTupleBuffer lib s tupleBuffer of
        None \<Rightarrow> None
      | Some (Threw e, s1) \<Rightarrow> Some (Threw e, s1)
      | Some (Returned (eos, dest), s1) \<Rightarrow> Some (Returned [(eos, [])], s1)
      | Some (Returned (withBytes n, dest), s1) \<Rightarrow>
          (case drain fuel lib tupleBuffer s1 of
             None \<Rightarrow> None
           | Some (Threw e, s2) \<Rightarrow> Some (Threw e, s2)
           | Some (Returned rs, s2) \<Rightarrow> Some (Returned ((withBytes n, take n dest) # rs), s2)))"

fun bytes_of :: "FillTupleBufferResult \<Rightarrow> nat" where
  "bytes_of eos = 0"
| "bytes_of (withBytes n) = n"

text \<open>
  Modelled from the spec: a session, the calls the execution engine makes on one open
  source, in order. \<open>session\<close> runs them all and tells with the state it ends in
  whether none of them has raised.
\<close>

datatype call = DecodeNextBlock | FillBuffer string

fun run_call :: "'c zstd \<Rightarrow> call \<Rightarrow> 'c FileSource \<Rightarrow> (bool \<times> 'c FileSource) option" where
  "run_call lib DecodeNextBlock s =
     (case decompressNextBlock lib s of
        None \<Rightarrow> None
      | Some (Threw e, s1) \<Rightarrow> Some (False, s1)
      | Some (Returned hasData, s1) \<Rightarrow> Some (True, s1))"
| "run_call lib (FillBuffer tupleBuffer) s =
     (case fillTupleBuffer lib s tupleBuffer of
        None \<Rightarrow> None
      | Some (Threw e, s1) \<Rightarrow> Some (False, s1)
      | Some (Returned r, s1) \<Rightarrow> Some (True, s1))"

fun session ::
  "'c zstd \<Rightarrow> call list \<Rightarrow> 'c FileSource \<Rightarrow> (bool \<times> 'c FileSource) option" where
  "session lib [] s = Some (True, s)"
| "session lib (c # cs) s =
     (case run_call lib c s of
        None \<Rightarrow> None
      | Some (ok, s1) \<Rightarrow>
          (case session lib cs s1 of
             None \<Rightarrow> None
           | Some (oks, s2) \<Rightarrow> Some (ok \<and> oks, s2)))"

text \<open>
  The content cut into pieces of the destination's capacity, the last one possibly
  shorter: what the round trip is to deliver.
\<close>

fun chunks :: "nat \<Rightarrow> string \<Rightarrow> string list" where
  "chunks k xs = (if k = 0 \<or> xs = [] then [] else take k xs # chunks k (drop k xs))"

subsection \<open>Invariants\<close>

text \<open>The cursors of the decompression state stay inside the output staging buffer.\<close>

definition cursor_invariant :: "'c FileSource \<Rightarrow> bool" where
  "cursor_invariant s =
     (decompressedOffset s \<le> decompressedSize s \<and>
      decompressedSize s \<le> length (decompressedBuffer s))"

text \<open>
  What the properties of a zstd call rest on: the library keeps its contract and the
  cursors are within bounds. The uncompressed mode needs nothing.
\<close>

definition fill_ready :: "'c zstd \<Rightarrow> 'c FileSource \<Rightarrow> bool" where
  "fill_ready lib s = (compressionType s = ''zstd'' \<longrightarrow> zstd_contract lib \<and> cursor_invariant s)"

text \<open>What the decode loop leaves alone, and what it keeps within bounds.\<close>

definition decoder_frame :: "'c FileSource \<Rightarrow> 'c FileSource \<Rightarrow> bool" where
  "decoder_frame s s' =
     (filePath s' = filePath s \<and> compressionType s' = compressionType s \<and>
      inputFile s' = inputFile s \<and> compressedBuffer s' = compressedBuffer s \<and>
      decompressedOffset s' = decompressedOffset s \<and>
      endOfCompressedStream s' = endOfCompressedStream s \<and>
      totalNumBytesRead s' = totalNumBytesRead s \<and>
      (zstdContext s \<noteq> None \<longrightarrow> zstdContext s' \<noteq> None))"

definition decoder_bounds :: "'c FileSource \<Rightarrow> 'c FileSource \<Rightarrow> bool" where
  "decoder_bounds s s' =
     (length (decompressedBuffer s') = length (decompressedBuffer s) \<and>
      decompressedSize s \<le> decompressedSize s' \<and>
      decompressedSize s' \<le> length (decompressedBuffer s'))"

subsection \<open>A small library and file system to run the code on\<close>

text \<open>
  A stand-in for the library with the shape of a streaming decoder: \<open>_\<close> is input
  that decodes to nothing (as the bytes of a skippable frame, or of a block that is not
  complete yet, do), \<open>!\<close> is corrupt input, every other byte decodes to itself.
  The chunk sizes are 4 and 8 bytes.
\<close>

fun stub_scan :: "string \<Rightarrow> nat \<Rightarrow> string option \<times> nat \<times> string" where
  "stub_scan [] room = (None, 0, [])"
| "stub_scan (c # cs) room =
     (if c = CHR ''!'' then (Some ''Data corruption detected'', 0, [])
      else if c = CHR ''_'' then
        (case stub_scan cs room of (e, n, out) \<Rightarrow> (e, Suc n, out))
      else if room = 0 then (None, 0, [])
      else (case stub_scan cs (room - 1) of (e, n, out) \<Rightarrow> (e, Suc n, c # out)))"

definition stub_zstd :: "unit zstd" where
  "stub_zstd =
     \<lparr>ZSTD_createDCtx = Some (),
      ZSTD_DStreamInSize = 4,
      ZSTD_DStreamOutSize = 8,
      ZSTD_decompressStream =
        (\<lambda>ctx inp room. case stub_scan inp room of (e, n, out) \<Rightarrow> ZRes e ctx n out)\<rparr>"

text \<open>
  The files that exist, all readable. \<open>/data/secret.txt\<close> exists too but cannot be
  opened; no other path resolves.
\<close>

definition demo_files :: "(string \<times> string) list" where
  "demo_files =
     [(''/data/hello.txt'', ''HelloWorld''),
      (''/data/skip.zst'', ''____abcd''),
      (''/data/short.zst'', ''ab______cd''),
      (''/data/corrupt.zst'', ''abcd!xyz'')]"

definition demo_os :: os where
  "demo_os =
     \<lparr>realpath =
        (\<lambda>p. if p \<in> set (map fst demo_files) \<or> p = ''/data/secret.txt'' then Some p
             else None),
      files = map_of demo_files,
      errnoMessage =
        (\<lambda>name. case name of None \<Rightarrow> ''Bad address'' | Some p \<Rightarrow> ''Permission denied'')\<rparr>"

text \<open>Sources opened on these files, and a destination of capacity 4.\<close>

definition hello_source :: "unit FileSource" where
  "hello_source = snd (open demo_os stub_zstd (FileSource_ctor ''/data/hello.txt'' ''none''))"

definition skip_source :: "unit FileSource" where
  "skip_source = snd (open demo_os stub_zstd (FileSource_ctor ''/data/skip.zst'' ''zstd''))"

definition short_source :: "unit FileSource" where
  "short_source = snd (open demo_os stub_zstd (FileSource_ctor ''/data/short.zst'' ''zstd''))"

definition corrupt_source :: "unit FileSource" where
  "corrupt_source =
     snd (open demo_os stub_zstd (FileSource_ctor ''/data/corrupt.zst'' ''zstd''))"

text \<open>
  The zstd source with nothing left to read, with the end of the stream already seen, and
  the corrupt one after its first four bytes have been delivered and after the call that
  has then raised; the uncompressed source with nothing left to read.
\<close>

definition empty_source :: "unit FileSource" where
  "empty_source = skip_source\<lparr>inputFile := (inputFile skip_source)\<lparr>unread := []\<rparr>\<rparr>"

definition exhausted_source :: "unit FileSource" where
  "exhausted_source = skip_source\<lparr>endOfCompressedStream := True\<rparr>"

definition corrupt_read :: "unit FileSource" where
  "corrupt_read =
     corrupt_source
       \<lparr>inputFile := (inputFile corrupt_source)\<lparr>unread := ''!xyz''\<rparr>,
        compressedBuffer := ''abcd'',
        decompressedBuffer := ''abcd'' @ replicate 4 (CHR 0x00),
        decompressedOffset := 4,
        decompressedSize := 4,
        totalNumBytesRead := 4\<rparr>"

definition corrupt_failed :: "unit FileSource" where
  "corrupt_failed =
     corrupt_read
       \<lparr>inputFile := (inputFile corrupt_read)\<lparr>unread := []\<rparr>,
        compressedBuffer := ''!xyz'',
        decompressedSize := 0\<rparr>"

definition hello_at_end :: "unit FileSource" where
  "hello_at_end =
     hello_source\<lparr>inputFile := (inputFile hello_source)\<lparr>unread := []\<rparr>,
                   totalNumBytesRead := 10\<rparr>"

text \<open>Two sources configured with a compression the code does not know.\<close>

definition gzip_source :: "unit FileSource" where
  "gzip_source = FileSource_ctor ''/data/hello.txt'' ''gzip''"

definition gzip_missing :: "unit FileSource" where
  "gzip_missing = FileSource_ctor ''/nope'' ''gzip''"

definition buf4 :: string where
  "buf4 = replicate 4 (CHR 0x00)"

section \<open>Properties\<close>

lemma memcpy_length:
  "dpos + n \<le> length dst \<Longrightarrow> spos + n \<le> length src \<Longrightarrow>
   length (memcpy dst dpos src spos n) = length dst"
  by (simp add: memcpy_def)

lemma memcpy_nothing: "memcpy dst dpos src spos 0 = dst"
  by (simp add: memcpy_def)

lemma istream_read_length: "length (fst (istream_read f n)) \<le> n"
  by (simp add: istream_read_def Let_def)

lemma decompressLoop_post:
  assumes "decompressLoop lib0 input0 pos0 s0 = Some y0"
  shows "decoder_frame s0 (snd y0) \<and>
         (zstd_contract lib0 \<longrightarrow> decompressedSize s0 \<le> length (decompressedBuffer s0)
            \<longrightarrow> decoder_bounds s0 (snd y0))"
proof (rule decompressLoop.raw_induct
         [where P = "\<lambda>lib input pos s y. decoder_frame s (snd y) \<and>
            (zstd_contract lib \<longrightarrow> decompressedSize s \<le> length (decompressedBuffer s)
               \<longrightarrow> decoder_bounds s (snd y))", OF _ assms], goal_cases)
  case (1 rec lib input pos s y)
  show ?case
  proof (cases "pos < length input")
    case False
    with 1(2) show ?thesis by (auto simp: decoder_frame_def decoder_bounds_def)
  next
    case True
    then obtain ctx where ctx: "zstdContext s = Some ctx"
      using 1(2) by (cases "zstdContext s") auto
    define r where "r = ZSTD_decompressStream lib ctx (drop pos input)
                      (length (decompressedBuffer s) - decompressedSize s)"
    define s1 where "s1 = s\<lparr>zstdContext := Some (zctx r),
                       decompressedBuffer :=
                         memcpy (decompressedBuffer s) (decompressedSize s) (zout r) 0
                           (length (zout r))\<rparr>"
    define s2 where "s2 = s1\<lparr>decompressedSize := decompressedSize s1 + length (zout r)\<rparr>"
    have room: "length (zout r) \<le> length (decompressedBuffer s) - decompressedSize s"
      if "zstd_contract lib"
      using that by (simp add: zstd_contract_def r_def)
    have len1: "length (decompressedBuffer s1) = length (decompressedBuffer s)"
      if "zstd_contract lib" "decompressedSize s \<le> length (decompressedBuffer s)"
      using room[OF that(1)] that(2) by (simp add: s1_def memcpy_length)
    show ?thesis
    proof (cases "zerror r")
      case (Some name)
      with 1(2) True ctx have "snd y = s1"
        by (auto simp: Let_def r_def s1_def)
      then show ?thesis
        using len1 by (auto simp: s1_def decoder_frame_def decoder_bounds_def)
    next
      case None
      have b2: "decoder_bounds s s2"
        if "zstd_contract lib" "decompressedSize s \<le> length (decompressedBuffer s)"
        using room[OF that(1)] len1[OF that] that(2)
        by (simp add: s1_def s2_def decoder_bounds_def)
      show ?thesis
      proof (cases "decompressedSize s2 \<ge> length (decompressedBuffer s2)")
        case brk: True
        with 1(2) True ctx None have "y = (Returned (), s2)"
          by (simp add: Let_def r_def s1_def s2_def)
        then show ?thesis
          using b2 by (simp add: s1_def s2_def decoder_frame_def)
      next
        case False
        with 1(2) True ctx None have "rec lib input (pos + zconsumed r) s2 = Some y"
          by (simp add: Let_def r_def s1_def s2_def)
        from 1(1)[OF this] b2 show ?thesis
          by (auto simp: s1_def s2_def decoder_frame_def decoder_bounds_def)
      qed
    qed
  qed
qed

lemma decompressLoop_frame:
  "decompressLoop lib input pos s = Some (out, s') \<Longrightarrow> decoder_frame s s'"
  using decompressLoop_post by fastforce

lemma decompressLoop_bounds:
  "zstd_contract lib \<Longrightarrow> decompressLoop lib input pos s = Some (out, s') \<Longrightarrow>
   decompressedSize s \<le> length (decompressedBuffer s) \<Longrightarrow> decoder_bounds s s'"
  using decompressLoop_post by fastforce

lemma decompressLoop_returns:
  assumes lib: "zstd_contract lib" "zstd_progress lib"
  shows "zstdContext s \<noteq> None \<Longrightarrow> decompressedSize s \<le> length (decompressedBuffer s) \<Longrightarrow>
         \<exists>y. decompressLoop lib input pos s = Some y"
proof (induction "(length input - pos) + (length (decompressedBuffer s) - decompressedSize s)"
         arbitrary: pos s rule: less_induct)
  case less
  show ?case
  proof (cases "pos < length input")
    case False
    then show ?thesis by (subst decompressLoop.simps) simp
  next
    case True
    from less.prems(1) obtain ctx where ctx: "zstdContext s = Some ctx" by auto
    define r where "r = ZSTD_decompressStream lib ctx (drop pos input)
                      (length (decompressedBuffer s) - decompressedSize s)"
    define s1 where "s1 = s\<lparr>zstdContext := Some (zctx r),
                       decompressedBuffer :=
                         memcpy (decompressedBuffer s) (decompressedSize s) (zout r) 0
                           (length (zout r))\<rparr>"
    define s2 where "s2 = s1\<lparr>decompressedSize := decompressedSize s1 + length (zout r)\<rparr>"
    have unfold: "decompressLoop lib input pos s =
        (case zerror r of
           Some name \<Rightarrow> Some (Threw (InvalidConfigParameter
                             (''ZSTD decompression error: '' @ name)), s1)
         | None \<Rightarrow> if decompressedSize s2 \<ge> length (decompressedBuffer s2)
                   then Some (Returned (), s2)
                   else decompressLoop lib input (pos + zconsumed r) s2)"
      using True ctx unfolding r_def s1_def s2_def
      by (subst decompressLoop.simps) (simp add: Let_def split: option.split)
    have room: "length (zout r) \<le> length (decompressedBuffer s) - decompressedSize s"
      using lib(1) by (simp add: zstd_contract_def r_def)
    have len2: "length (decompressedBuffer s2) = length (decompressedBuffer s)"
      using room less.prems(2) by (simp add: s1_def s2_def memcpy_length)
    show ?thesis
    proof (cases "zerror r")
      case (Some name)
      then show ?thesis by (simp add: unfold)
    next
      case None
      show ?thesis
      proof (cases "decompressedSize s2 \<ge> length (decompressedBuffer s2)")
        case True
        with None show ?thesis by (simp add: unfold)
      next
        case False
        then have sz: "decompressedSize s + length (zout r) < length (decompressedBuffer s)"
          using len2 by (simp add: s1_def s2_def)
        have d2: "decompressedSize s2 = decompressedSize s + length (zout r)"
          by (simp add: s1_def s2_def)
        have "0 < zconsumed r \<or> zout r \<noteq> []"
          using lib(2) True None sz unfolding zstd_progress_def r_def by simp
        then have "0 < zconsumed r \<or> 0 < length (zout r)" by simp
        with True sz
        have "(length input - (pos + zconsumed r)) +
                   (length (decompressedBuffer s2) - decompressedSize s2)
                 < (length input - pos) + (length (decompressedBuffer s) - decompressedSize s)"
          unfolding len2 d2 by linarith
        moreover have "zstdContext s2 \<noteq> None" by (simp add: s1_def s2_def)
        moreover have "decompressedSize s2 \<le> length (decompressedBuffer s2)"
          using False by simp
        ultimately have "\<exists>y. decompressLoop lib input (pos + zconsumed r) s2 = Some y"
          by (rule less.hyps)
        with None False show ?thesis by (simp add: unfold)
      qed
    qed
  qed
qed

lemma decompressNextBlock_exhausted:
  "endOfCompressedStream s \<Longrightarrow> decompressNextBlock lib s = Some (Returned False, s)"
  by (simp add: decompressNextBlock_def)

lemma decompressNextBlock_post:
  assumes "decompressNextBlock lib s = Some (out, s')"
  shows "filePath s' = filePath s \<and> compressionType s' = compressionType s \<and>
         totalNumBytesRead s' = totalNumBytesRead s \<and>
         (zstdContext s \<noteq> None \<longrightarrow> zstdContext s' \<noteq> None) \<and>
         (out = Returned True \<longrightarrow> decompressedOffset s' = 0 \<and> 0 < decompressedSize s') \<and>
         (out = Returned False \<longrightarrow> \<not> decompressedOffset s < decompressedSize s \<longrightarrow>
            \<not> decompressedOffset s' < decompressedSize s')"
  using assms
  by (auto simp: decompressNextBlock_def Let_def decoder_frame_def
           split: if_splits prod.splits option.splits outcome.splits
           dest!: decompressLoop_frame)

lemma decompressNextBlock_bounds:
  assumes "zstd_contract lib" "decompressNextBlock lib s = Some (out, s')"
    and "decompressedSize s \<le> length (decompressedBuffer s)"
  shows "length (decompressedBuffer s') = length (decompressedBuffer s) \<and>
         decompressedSize s' \<le> length (decompressedBuffer s') \<and>
         (decompressedOffset s \<le> decompressedSize s \<longrightarrow> (\<exists>b. out = Returned b) \<longrightarrow>
            decompressedOffset s' \<le> decompressedSize s')"
proof (cases "endOfCompressedStream s")
  case True
  with assms show ?thesis by (simp add: decompressNextBlock_def)
next
  case False
  obtain got f where rd: "istream_read (inputFile s) (length (compressedBuffer s)) = (got, f)"
    by (cases "istream_read (inputFile s) (length (compressedBuffer s))")
  define s1 where "s1 = s\<lparr>inputFile := f,
                   compressedBuffer := memcpy (compressedBuffer s) 0 got 0 (length got)\<rparr>"
  show ?thesis
  proof (cases "got = []")
    case True
    with assms False rd show ?thesis
      by (auto simp: decompressNextBlock_def)
  next
    case ne: False
    with assms(2) False rd obtain u s2 where
      loop: "decompressLoop lib (take (length got) (compressedBuffer s1)) 0
               (s1\<lparr>decompressedSize := 0\<rparr>) = Some (u, s2)"
      and res: "(\<exists>e. u = Threw e \<and> out = Threw e \<and> s' = s2) \<or>
                (u = Returned () \<and> out = Returned (decompressedSize s2 > 0) \<and>
                 s' = s2\<lparr>decompressedOffset := 0\<rparr>)"
      by (auto simp: decompressNextBlock_def s1_def Let_def
               split: option.splits outcome.splits)
    from decompressLoop_bounds[OF assms(1) loop]
    have "decoder_bounds (s1\<lparr>decompressedSize := 0\<rparr>) s2" by simp
    with res show ?thesis
      by (auto simp: decoder_bounds_def s1_def)
  qed
qed

lemma decompressNextBlock_returns:
  assumes "zstd_contract lib" "zstd_progress lib" "zstdContext s \<noteq> None"
  shows "\<exists>y. decompressNextBlock lib s = Some y"
proof -
  obtain got f where rd: "istream_read (inputFile s) (length (compressedBuffer s)) = (got, f)"
    by (cases "istream_read (inputFile s) (length (compressedBuffer s))")
  define s1 where "s1 = s\<lparr>inputFile := f,
                   compressedBuffer := memcpy (compressedBuffer s) 0 got 0 (length got),
                   decompressedSize := 0\<rparr>"
  have "\<exists>y. decompressLoop lib (take (length got) (compressedBuffer s1)) 0 s1 = Some y"
    using assms by (intro decompressLoop_returns) (simp_all add: s1_def)
  then show ?thesis
    using rd by (auto simp: decompressNextBlock_def s1_def Let_def split: outcome.splits)
qed

lemma fillLoop_post:
  assumes "fillLoop lib0 bs0 total0 dest0 s0 = Some y0"
  shows "filePath (snd y0) = filePath s0 \<and> compressionType (snd y0) = compressionType s0 \<and>
         totalNumBytesRead (snd y0) = totalNumBytesRead s0 \<and>
         (zstdContext s0 \<noteq> None \<longrightarrow> zstdContext (snd y0) \<noteq> None) \<and>
         (\<forall>t d. fst y0 = Returned (t, d) \<longrightarrow>
            total0 \<le> t \<and> (total0 \<le> bs0 \<longrightarrow> t \<le> bs0) \<and> (t = total0 \<longrightarrow> d = dest0) \<and>
            (t = total0 \<and> total0 < bs0 \<longrightarrow>
               \<not> decompressedOffset s0 < decompressedSize s0 \<and>
               decompressNextBlock lib0 s0 = Some (Returned False, snd y0)))"
proof (rule fillLoop.raw_induct
         [where P = "\<lambda>lib bs total dest s y.
            filePath (snd y) = filePath s \<and> compressionType (snd y) = compressionType s \<and>
            totalNumBytesRead (snd y) = totalNumBytesRead s \<and>
            (zstdContext s \<noteq> None \<longrightarrow> zstdContext (snd y) \<noteq> None) \<and>
            (\<forall>t d. fst y = Returned (t, d) \<longrightarrow>
               total \<le> t \<and> (total \<le> bs \<longrightarrow> t \<le> bs) \<and> (t = total \<longrightarrow> d = dest) \<and>
               (t = total \<and> total < bs \<longrightarrow>
                  \<not> decompressedOffset s < decompressedSize s \<and>
                  decompressNextBlock lib s = Some (Returned False, snd y)))",
          OF _ assms], goal_cases)
  case (1 rec lib bs total dest s y)
  show ?case
  proof (cases "total < bs")
    case False
    with 1(2) have "y = (Returned (total, dest), s)" by auto
    with False show ?thesis by simp
  next
    case room: True
    show ?thesis
    proof (cases "decompressedOffset s < decompressedSize s")
      case True
      define n where "n = min (decompressedSize s - decompressedOffset s) (bs - total)"
      have n: "0 < n" "total + n \<le> bs" using True room by (auto simp: n_def)
      from 1(2) room True
      have "rec lib bs (total + n)
              (memcpy dest total (decompressedBuffer s) (decompressedOffset s) n)
              (s\<lparr>decompressedOffset := decompressedOffset s + n\<rparr>) = Some y"
        by (simp add: Let_def n_def)
      from 1(1)[OF this] n show ?thesis by auto
    next
      case False
      from 1(2) room False obtain out s1 where
        nb: "decompressNextBlock lib s = Some (out, s1)"
        by (cases "decompressNextBlock lib s") auto
      note post = decompressNextBlock_post[OF nb]
      show ?thesis
      proof (cases out)
        case (Threw e)
        with 1(2) room False nb have "y = (Threw e, s1)" by auto
        with post show ?thesis by simp
      next
        case (Returned hasData)
        show ?thesis
        proof (cases hasData)
          case nodata: False
          with 1(2) room False nb Returned have "y = (Returned (total, dest), s1)" by auto
          with post nb Returned nodata False show ?thesis by simp
        next
          case True
          with 1(2) room False nb Returned have "rec lib bs total dest s1 = Some y" by auto
          from 1(1)[OF this] post Returned True room show ?thesis by auto
        qed
      qed
    qed
  qed
qed

lemma fillLoop_bounds:
  assumes "fillLoop lib0 bs0 total0 dest0 s0 = Some y0"
  shows "zstd_contract lib0 \<longrightarrow> cursor_invariant s0 \<longrightarrow>
         length (decompressedBuffer (snd y0)) = length (decompressedBuffer s0) \<and>
         decompressedSize (snd y0) \<le> length (decompressedBuffer (snd y0)) \<and>
         ((\<exists>r. fst y0 = Returned r) \<longrightarrow> cursor_invariant (snd y0))"
proof (rule fillLoop.raw_induct
         [where P = "\<lambda>lib bs total dest s y.
            zstd_contract lib \<longrightarrow> cursor_invariant s \<longrightarrow>
            length (decompressedBuffer (snd y)) = length (decompressedBuffer s) \<and>
            decompressedSize (snd y) \<le> length (decompressedBuffer (snd y)) \<and>
            ((\<exists>r. fst y = Returned r) \<longrightarrow> cursor_invariant (snd y))",
          OF _ assms], goal_cases)
  case (1 rec lib bs total dest s y)
  show ?case
  proof (intro impI)
    assume lib: "zstd_contract lib" and inv: "cursor_invariant s"
    show "length (decompressedBuffer (snd y)) = length (decompressedBuffer s) \<and>
          decompressedSize (snd y) \<le> length (decompressedBuffer (snd y)) \<and>
          ((\<exists>r. fst y = Returned r) \<longrightarrow> cursor_invariant (snd y))"
    proof (cases "total < bs")
      case False
      with 1(2) have "y = (Returned (total, dest), s)" by auto
      with inv show ?thesis by (simp add: cursor_invariant_def)
    next
      case room: True
      show ?thesis
      proof (cases "decompressedOffset s < decompressedSize s")
        case True
        define n where "n = min (decompressedSize s - decompressedOffset s) (bs - total)"
        define s1 where "s1 = s\<lparr>decompressedOffset := decompressedOffset s + n\<rparr>"
        from 1(2) room True
        have "rec lib bs (total + n)
                (memcpy dest total (decompressedBuffer s) (decompressedOffset s) n) s1 = Some y"
          by (simp add: Let_def n_def s1_def)
        moreover have "cursor_invariant s1"
          using inv True by (auto simp: cursor_invariant_def s1_def n_def)
        ultimately show ?thesis using 1(1) lib by (fastforce simp: s1_def)
      next
        case False
        from 1(2) room False obtain out s1 where
          nb: "decompressNextBlock lib s = Some (out, s1)"
          by (cases "decompressNextBlock lib s") auto
        from inv have "decompressedSize s \<le> length (decompressedBuffer s)"
          by (simp add: cursor_invariant_def)
        note b = decompressNextBlock_bounds[OF lib nb this]
        show ?thesis
        proof (cases out)
          case (Threw e)
          with 1(2) room False nb have "y = (Threw e, s1)" by auto
          with b show ?thesis by simp
        next
          case (Returned hasData)
          have inv1: "cursor_invariant s1"
            using b inv Returned by (simp add: cursor_invariant_def)
          show ?thesis
          proof (cases hasData)
            case nodata: False
            with 1(2) room False nb Returned have "y = (Returned (total, dest), s1)" by auto
            with b inv1 show ?thesis by simp
          next
            case True
            with 1(2) room False nb Returned have "rec lib bs total dest s1 = Some y" by auto
            from 1(1)[OF this] lib inv1 b show ?thesis by simp
          qed
        qed
      qed
    qed
  qed
qed

lemma fillLoop_returns:
  assumes lib: "zstd_contract lib" "zstd_progress lib"
  shows "zstdContext s \<noteq> None \<Longrightarrow> \<exists>y. fillLoop lib bs tot dest s = Some y"
proof (induction "2 * (bs - tot) + (if decompressedOffset s < decompressedSize s then 0 else 1)"
         arbitrary: tot dest s rule: less_induct)
  case less
  show ?case
  proof (cases "tot < bs")
    case False
    then show ?thesis by (subst fillLoop.simps) simp
  next
    case room: True
    show ?thesis
    proof (cases "decompressedOffset s < decompressedSize s")
      case True
      define n where "n = min (decompressedSize s - decompressedOffset s) (bs - tot)"
      define s1 where "s1 = s\<lparr>decompressedOffset := decompressedOffset s + n\<rparr>"
      have n: "0 < n" "tot + n \<le> bs" using True room by (auto simp: n_def)
      have "2 * (bs - (tot + n)) + (if decompressedOffset s1 < decompressedSize s1 then 0 else 1)
            < 2 * (bs - tot) + (if decompressedOffset s < decompressedSize s then 0 else 1)"
        using n room True by (auto split: if_splits)
      moreover have "zstdContext s1 \<noteq> None" using less.prems by (simp add: s1_def)
      ultimately have "\<exists>y. fillLoop lib bs (tot + n)
          (memcpy dest tot (decompressedBuffer s) (decompressedOffset s) n) s1 = Some y"
        by (rule less.hyps)
      then show ?thesis
        using room True by (subst fillLoop.simps) (simp add: Let_def n_def s1_def)
    next
      case False
      from decompressNextBlock_returns[OF lib less.prems] obtain out s1 where
        nb: "decompressNextBlock lib s = Some (out, s1)" by auto
      note post = decompressNextBlock_post[OF nb]
      show ?thesis
      proof (cases "out = Returned True")
        case True
        with post have "decompressedOffset s1 < decompressedSize s1" by simp
        then have "2 * (bs - tot) + (if decompressedOffset s1 < decompressedSize s1 then 0 else 1)
            < 2 * (bs - tot) + (if decompressedOffset s < decompressedSize s then 0 else 1)"
          using False by simp
        moreover have "zstdContext s1 \<noteq> None" using post less.prems by simp
        ultimately have "\<exists>y. fillLoop lib bs tot dest s1 = Some y"
          by (rule less.hyps)
        then show ?thesis
          using room False nb True by (subst fillLoop.simps) simp
      next
        case nt: False
        then show ?thesis
          using room False nb
          by (subst fillLoop.simps) (cases out; simp)
      qed
    qed
  qed
qed

lemma stub_scan_bounds:
  "(case stub_scan inp room of (e, n, out) \<Rightarrow> n \<le> length inp \<and> length out \<le> room)"
  by (induction inp room rule: stub_scan.induct) (auto split: prod.splits)

lemma stub_scan_progress:
  "inp \<noteq> [] \<Longrightarrow> 0 < room \<Longrightarrow>
   (case stub_scan inp room of (e, n, out) \<Rightarrow> e = None \<longrightarrow> 0 < n)"
  by (cases inp) (auto split: prod.splits)

lemma stub_zstd_contract: "zstd_contract stub_zstd"
proof -
  have "zconsumed (ZSTD_decompressStream stub_zstd c inp room) \<le> length inp \<and>
        length (zout (ZSTD_decompressStream stub_zstd c inp room)) \<le> room" for c inp room
    using stub_scan_bounds[of inp room] by (simp add: stub_zstd_def split: prod.splits)
  then show ?thesis unfolding zstd_contract_def by blast
qed

lemma stub_zstd_progress: "zstd_progress stub_zstd"
proof -
  have "0 < zconsumed (ZSTD_decompressStream stub_zstd c inp room)"
    if "inp \<noteq> []" "0 < room" "zerror (ZSTD_decompressStream stub_zstd c inp room) = None"
    for c inp room
    using stub_scan_progress[OF that(1,2)] that(3)
    by (simp add: stub_zstd_def split: prod.splits)
  then show ?thesis unfolding zstd_progress_def by blast
qed

lemma demo_os_simps:
  "realpath demo_os p =
     (if p \<in> set (map fst demo_files) \<or> p = ''/data/secret.txt'' then Some p else None)"
  "files demo_os = map_of demo_files"
  "errnoMessage demo_os None = ''Bad address''"
  "errnoMessage demo_os (Some q) = ''Permission denied''"
  by (simp_all add: demo_os_def)

lemma stub_zstd_simps:
  "ZSTD_createDCtx stub_zstd = Some ()"
  "ZSTD_DStreamInSize stub_zstd = 4"
  "ZSTD_DStreamOutSize stub_zstd = 8"
  "ZSTD_decompressStream stub_zstd ctx inp room =
     (case stub_scan inp room of (e, n, out) \<Rightarrow> ZRes e ctx n out)"
  by (simp_all add: stub_zstd_def)

lemma hello_source_eq:
  "hello_source =
     \<lparr>filePath = ''/data/hello.txt'', compressionType = ''none'',
      inputFile = \<lparr>is_open = True, unread = ''HelloWorld'', eofbit = False, failbit = False\<rparr>,
      zstdContext = None, compressedBuffer = [], decompressedBuffer = [],
      decompressedOffset = 0, decompressedSize = 0, endOfCompressedStream = False,
      totalNumBytesRead = 0\<rparr>"
  by (simp add: hello_source_def open_def FileSource_ctor_def demo_os_simps demo_files_def
        ifstream_ctor_def closed_stream_def Let_def)

lemma zstd_source_eq:
  "skip_source =
     \<lparr>filePath = ''/data/skip.zst'', compressionType = ''zstd'',
      inputFile = \<lparr>is_open = True, unread = ''____abcd'', eofbit = False, failbit = False\<rparr>,
      zstdContext = Some (), compressedBuffer = replicate 4 (CHR 0x00),
      decompressedBuffer = replicate 8 (CHR 0x00),
      decompressedOffset = 0, decompressedSize = 0, endOfCompressedStream = False,
      totalNumBytesRead = 0\<rparr>"
  "short_source =
     \<lparr>filePath = ''/data/short.zst'', compressionType = ''zstd'',
      inputFile = \<lparr>is_open = True, unread = ''ab______cd'', eofbit = False, failbit = False\<rparr>,
      zstdContext = Some (), compressedBuffer = replicate 4 (CHR 0x00),
      decompressedBuffer = replicate 8 (CHR 0x00),
      decompressedOffset = 0, decompressedSize = 0, endOfCompressedStream = False,
      totalNumBytesRead = 0\<rparr>"
  "corrupt_source =
     \<lparr>filePath = ''/data/corrupt.zst'', compressionType = ''zstd'',
      inputFile = \<lparr>is_open = True, unread = ''abcd!xyz'', eofbit = False, failbit = False\<rparr>,
      zstdContext = Some (), compressedBuffer = replicate 4 (CHR 0x00),
      decompressedBuffer = replicate 8 (CHR 0x00),
      decompressedOffset = 0, decompressedSize = 0, endOfCompressedStream = False,
      totalNumBytesRead = 0\<rparr>"
  by (simp_all add: skip_source_def short_source_def corrupt_source_def open_def
        FileSource_ctor_def demo_os_simps demo_files_def stub_zstd_simps resize_def
        ifstream_ctor_def closed_stream_def Let_def)

lemma fillLoop_done:
  "\<not> written < bs \<Longrightarrow> fillLoop lib bs written dest s = Some (Returned (written, dest), s)"
  by (subst fillLoop.simps) simp

lemma read_nothing:
  "istream_read f 0 = ([], if good f then f else f\<lparr>failbit := True\<rparr>)"
  by (simp add: istream_read_def good_def)

text \<open>
  C10: a call with a destination of capacity 0 returns end of stream and consumes no byte
  of the stream, in either mode, whatever the stream still holds; the object is unchanged
  (in the uncompressed mode on a stream that is good), so the stream is not exhausted by
  it.
\<close>

theorem fillTupleBuffer_zero_capacity:
  "\<exists>s'. fillTupleBuffer lib s [] = Some (Returned (eos, []), s') \<and>
        unread (inputFile s') = unread (inputFile s) \<and>
        totalNumBytesRead s' = totalNumBytesRead s \<and>
        (compressionType s = ''zstd'' \<or> good (inputFile s) \<longrightarrow> s' = s)"
  by (simp add: fillTupleBuffer_def fillLoop_done read_nothing memcpy_nothing)

theorem fillTupleBuffer_zero_capacity_witness:
  "good (inputFile hello_source) \<and>
   unread (inputFile hello_source) = ''HelloWorld'' \<and>
   fillTupleBuffer stub_zstd hello_source [] = Some (Returned (eos, []), hello_source) \<and>
   fillTupleBuffer stub_zstd hello_source buf4 =
     Some (Returned (withBytes 4, ''Hell''),
           hello_source\<lparr>inputFile := (inputFile hello_source)\<lparr>unread := ''oWorld''\<rparr>,
                         totalNumBytesRead := 4\<rparr>)"
proof -
  have g: "good (inputFile hello_source)" "unread (inputFile hello_source) = ''HelloWorld''"
    by (simp_all add: hello_source_eq good_def)
  have next_call: "fillTupleBuffer stub_zstd hello_source buf4 =
     Some (Returned (withBytes 4, ''Hell''),
           hello_source\<lparr>inputFile := (inputFile hello_source)\<lparr>unread := ''oWorld''\<rparr>,
                         totalNumBytesRead := 4\<rparr>)"
    by code_simp
  from fillTupleBuffer_zero_capacity[of stub_zstd hello_source] g next_call
  show ?thesis by auto
qed

text \<open>
  C4: a call that returns gives \<open>eos\<close> or \<open>withBytes n\<close> with \<open>n > 0\<close>, never
  \<open>withBytes 0\<close>; the result carries the number of bytes written, and when that is
  zero the result is \<open>eos\<close> and the destination is untouched. The uncompressed call
  always returns; the zstd call returns or raises when the library keeps its contract
  and makes progress.
\<close>

theorem fillTupleBuffer_result_shape:
  "(compressionType s \<noteq> ''zstd'' \<longrightarrow>
      (\<exists>r d s'. fillTupleBuffer lib s buf = Some (Returned (r, d), s'))) \<and>
   (zstd_contract lib \<and> zstd_progress lib \<and> zstdContext s \<noteq> None \<longrightarrow>
      (\<exists>y. fillTupleBuffer lib s buf = Some y)) \<and>
   (\<forall>r d s'. fillTupleBuffer lib s buf = Some (Returned (r, d), s') \<longrightarrow>
      r \<noteq> withBytes 0 \<and> (r = eos \<or> (\<exists>n>0. r = withBytes n)) \<and>
      totalNumBytesRead s' = totalNumBytesRead s + bytes_of r \<and>
      bytes_of r \<le> length buf \<and>
      (bytes_of r = 0 \<longrightarrow> r = eos \<and> d = buf))"
proof (intro conjI impI allI)
  assume "compressionType s \<noteq> ''zstd''"
  then show "\<exists>r d s'. fillTupleBuffer lib s buf = Some (Returned (r, d), s')"
    by (simp add: fillTupleBuffer_def Let_def split: prod.splits)
next
  assume h: "zstd_contract lib \<and> zstd_progress lib \<and> zstdContext s \<noteq> None"
  then obtain y where "fillLoop lib (length buf) 0 buf s = Some y"
    using fillLoop_returns[of lib s "length buf" 0 buf] by auto
  then show "\<exists>y. fillTupleBuffer lib s buf = Some y"
    by (auto simp: fillTupleBuffer_def Let_def split: prod.splits outcome.splits)
next
  fix r d s'
  assume ret: "fillTupleBuffer lib s buf = Some (Returned (r, d), s')"
  have "r \<noteq> withBytes 0 \<and> (r = eos \<or> (\<exists>n>0. r = withBytes n)) \<and>
        totalNumBytesRead s' = totalNumBytesRead s + bytes_of r \<and>
        bytes_of r \<le> length buf \<and> (bytes_of r = 0 \<longrightarrow> r = eos \<and> d = buf)"
  proof (cases "compressionType s = ''zstd''")
    case True
    with ret obtain t s1 where
      loop: "fillLoop lib (length buf) 0 buf s = Some (Returned (t, d), s1)"
      and r: "r = (if t = 0 then eos else withBytes t)"
      and s': "s' = s1\<lparr>totalNumBytesRead := totalNumBytesRead s1 + t\<rparr>"
      by (auto simp: fillTupleBuffer_def Let_def
               split: option.splits prod.splits outcome.splits if_splits)
    from fillLoop_post[OF loop] r s' show ?thesis by auto
  next
    case False
    obtain got f where rd: "istream_read (inputFile s) (length buf) = (got, f)"
      by (cases "istream_read (inputFile s) (length buf)")
    have "length got \<le> length buf"
      using istream_read_length[of "inputFile s" "length buf"] rd by simp
    with ret False rd show ?thesis
      by (auto simp: fillTupleBuffer_def Let_def memcpy_nothing split: if_splits)
  qed
  then show "r \<noteq> withBytes 0" "r = eos \<or> (\<exists>n>0. r = withBytes n)"
    "totalNumBytesRead s' = totalNumBytesRead s + bytes_of r"
    "bytes_of r \<le> length buf" by blast+
  { assume "bytes_of r = 0"
    with \<open>r \<noteq> withBytes 0 \<and> _\<close> show "r = eos" "d = buf" by blast+ }
qed

theorem fillTupleBuffer_result_shape_witness:
  "compressionType hello_source \<noteq> ''zstd'' \<and>
   fillTupleBuffer stub_zstd hello_source buf4 =
     Some (Returned (withBytes 4, ''Hell''),
           hello_source\<lparr>inputFile := (inputFile hello_source)\<lparr>unread := ''oWorld''\<rparr>,
                         totalNumBytesRead := 4\<rparr>) \<and>
   zstd_contract stub_zstd \<and> zstd_progress stub_zstd \<and> zstdContext skip_source \<noteq> None \<and>
   fillTupleBuffer stub_zstd skip_source buf4 =
     Some (Returned (eos, buf4),
           skip_source\<lparr>inputFile := (inputFile skip_source)\<lparr>unread := ''abcd''\<rparr>,
                        compressedBuffer := ''____''\<rparr>) \<and>
   bytes_of eos = 0 \<and> bytes_of (withBytes 4) \<le> length buf4"
proof -
  have e1: "fillTupleBuffer stub_zstd hello_source buf4 =
     Some (Returned (withBytes 4, ''Hell''),
           hello_source\<lparr>inputFile := (inputFile hello_source)\<lparr>unread := ''oWorld''\<rparr>,
                         totalNumBytesRead := 4\<rparr>)"
    by code_simp
  have e2: "fillTupleBuffer stub_zstd skip_source buf4 =
     Some (Returned (eos, buf4),
           skip_source\<lparr>inputFile := (inputFile skip_source)\<lparr>unread := ''abcd''\<rparr>,
                        compressedBuffer := ''____''\<rparr>)"
    by code_simp
  have c: "compressionType hello_source \<noteq> ''zstd''" "zstdContext skip_source \<noteq> None"
    by (simp_all add: hello_source_eq zstd_source_eq)
  from fillTupleBuffer_result_shape[of hello_source stub_zstd buf4]
       fillTupleBuffer_result_shape[of skip_source stub_zstd buf4]
       e1 e2 c stub_zstd_contract stub_zstd_progress
  show ?thesis by (simp add: buf4_def)
qed

declare chunks.simps [simp del]

lemma concat_chunks: "0 < k \<Longrightarrow> concat (chunks k xs) = xs"
proof (induction k xs rule: chunks.induct)
  case (1 k xs)
  then show ?case by (subst chunks.simps) auto
qed

lemma fill_uncompressed:
  assumes "compressionType s \<noteq> ''zstd''"
  shows "fillTupleBuffer lib s buf =
    (let (got, f) = istream_read (inputFile s) (length buf);
         s1 = s\<lparr>inputFile := f, totalNumBytesRead := totalNumBytesRead s + length got\<rparr>;
         dest = memcpy buf 0 got 0 (length got)
     in Some (Returned (if got = [] then eos else withBytes (length got), dest), s1))"
  using assms by (simp add: fillTupleBuffer_def Let_def split: prod.splits)

lemma drain_failed_stream:
  assumes "compressionType s \<noteq> ''zstd''" "\<not> good (inputFile s)"
  shows "drain (Suc fuel) lib buf s =
           Some (Returned [(eos, [])], s\<lparr>inputFile := (inputFile s)\<lparr>failbit := True\<rparr>\<rparr>)"
  using assms by (simp add: fill_uncompressed istream_read_def)

lemma drain_uncompressed:
  assumes "compressionType s \<noteq> ''zstd''" "good (inputFile s)" "is_open (inputFile s)"
    and "buf \<noteq> []" "length (unread (inputFile s)) < fuel"
  shows "drain fuel lib buf s =
     Some (Returned (map (\<lambda>c. (withBytes (length c), c))
                       (chunks (length buf) (unread (inputFile s))) @ [(eos, [])]),
           s\<lparr>inputFile := (inputFile s)\<lparr>unread := [], eofbit := True, failbit := True\<rparr>,
             totalNumBytesRead := totalNumBytesRead s + length (unread (inputFile s))\<rparr>)"
  using assms
proof (induction "length (unread (inputFile s))" arbitrary: s fuel rule: less_induct)
  case less
  define u where "u = unread (inputFile s)"
  define k where "k = length buf"
  have k: "0 < k" using less.prems(4) by (simp add: k_def)
  obtain f where fuel: "fuel = Suc f" using less.prems(5) by (cases fuel) auto
  show ?case
  proof (cases "u = []")
    case True
    then show ?thesis
      using less.prems k unfolding fuel
      by (simp add: fill_uncompressed istream_read_def u_def[symmetric] k_def[symmetric]
            chunks.simps[of k "[]"] memcpy_nothing)
  next
    case ne: False
    define m where "m = min (length u) k"
    have m: "0 < m" "m \<le> k" "m \<le> length u" using ne k by (auto simp: m_def)
    define s1 where "s1 = s\<lparr>inputFile := (inputFile s)\<lparr>unread := drop m u,
                               eofbit := (m \<noteq> k), failbit := (m \<noteq> k)\<rparr>,
                           totalNumBytesRead := totalNumBytesRead s + m\<rparr>"
    have fill: "fillTupleBuffer lib s buf =
                  Some (Returned (withBytes m, memcpy buf 0 (take k u) 0 m), s1)"
      using less.prems(1,2,3) ne m
      by (simp add: fill_uncompressed istream_read_def u_def[symmetric] k_def[symmetric]
            s1_def m_def Let_def)
    have "take m u = take k u"
      by (cases "length u \<le> k") (simp_all add: m_def min_def)
    then have payload: "take m (memcpy buf 0 (take k u) 0 m) = take k u"
      using m by (simp add: memcpy_def k_def)
    have ch: "chunks k u = take k u # chunks k (drop k u)"
      using ne k by (subst chunks.simps) simp
    show ?thesis
    proof (cases "m = k")
      case True
      have "drain f lib buf s1 =
         Some (Returned (map (\<lambda>c. (withBytes (length c), c))
                       (chunks (length buf) (unread (inputFile s1))) @ [(eos, [])]),
           s1\<lparr>inputFile := (inputFile s1)\<lparr>unread := [], eofbit := True, failbit := True\<rparr>,
             totalNumBytesRead := totalNumBytesRead s1 + length (unread (inputFile s1))\<rparr>)"
      proof (rule less.hyps)
        show "length (unread (inputFile s1)) < length (unread (inputFile s))"
          using m ne by (simp add: s1_def u_def[symmetric])
        show "compressionType s1 \<noteq> ''zstd''" using less.prems(1) by (simp add: s1_def)
        show "good (inputFile s1)" using True less.prems(2) by (simp add: s1_def good_def)
        show "is_open (inputFile s1)" using less.prems(3) by (simp add: s1_def)
        show "buf \<noteq> []" by fact
        show "length (unread (inputFile s1)) < f"
          using less.prems(5) m fuel by (simp add: s1_def u_def[symmetric])
      qed
      then show ?thesis
        using fill payload ch True m unfolding fuel
        by (simp add: s1_def u_def[symmetric] k_def[symmetric])
    next
      case False
      with m have short: "length u < k" "m = length u" by (auto simp: m_def)
      obtain f' where f: "f = Suc f'"
        using less.prems(5) ne fuel by (cases f) (auto simp: u_def[symmetric])
      have "drain f lib buf s1 =
              Some (Returned [(eos, [])], s1\<lparr>inputFile := (inputFile s1)\<lparr>failbit := True\<rparr>\<rparr>)"
        unfolding f using less.prems(1) False
        by (intro drain_failed_stream) (simp_all add: s1_def good_def)
      moreover have "chunks k u = [u]"
        using short ne k by (simp add: ch chunks.simps[of k "[]"])
      ultimately show ?thesis
        using fill payload short unfolding fuel
        by (simp add: s1_def u_def[symmetric] k_def[symmetric])
    qed
  qed
qed

lemma chunks_nonempty: "[] \<notin> set (chunks k xs)"
proof (induction k xs rule: chunks.induct)
  case (1 k xs)
  then show ?case by (subst chunks.simps) auto
qed

lemma open_uncompressed:
  assumes "realpath env path = Some p" "files env p = Some C" "compression = ''none'' \<or> compression = []"
  shows "open env lib (FileSource_ctor path compression) =
           (Returned (),
            (FileSource_ctor path compression)
              \<lparr>inputFile := \<lparr>is_open = True, unread = C, eofbit = False, failbit = False\<rparr>\<rparr>)"
  using assms
  by (auto simp: open_def FileSource_ctor_def ifstream_ctor_def closed_stream_def Let_def)

text \<open>
  C1: a source opened without compression on a file of content \<open>C\<close> and drained with
  destinations of capacity \<open>k \<ge> 1\<close> delivers \<open>C\<close> cut into pieces of \<open>k\<close> bytes
  (the last one the non-empty rest), each as \<open>withBytes\<close> of its length, then \<open>eos\<close>
  once; the pieces concatenated are \<open>C\<close> and the byte counter ends at the length of
  \<open>C\<close>. On \<open>HelloWorld\<close> with capacity 4 the results are 4, 4 and 2 bytes, then
  \<open>eos\<close>, and the counter is 10.
\<close>

theorem uncompressed_round_trip:
  assumes "1 \<le> length buf" "realpath env path = Some p" "files env p = Some C"
    and "compression = ''none'' \<or> compression = []"
  shows "(\<exists>s1 s2.
            open env lib (FileSource_ctor path compression) = (Returned (), s1) \<and>
            drain (length C + 1) lib buf s1 =
              Some (Returned (map (\<lambda>c. (withBytes (length c), c)) (chunks (length buf) C)
                                @ [(eos, [])]), s2) \<and>
            totalNumBytesRead s2 = length C) \<and>
         concat (chunks (length buf) C) = C \<and> [] \<notin> set (chunks (length buf) C) \<and>
         drain 11 stub_zstd buf4 hello_source =
           Some (Returned [(withBytes 4, ''Hell''), (withBytes 4, ''oWor''),
                           (withBytes 2, ''ld''), (eos, [])],
                 hello_source
                   \<lparr>inputFile := \<lparr>is_open = True, unread = [], eofbit = True, failbit = True\<rparr>,
                     totalNumBytesRead := 10\<rparr>)"
proof -
  define s1 :: "'a FileSource" where
    "s1 = (FileSource_ctor path compression)
            \<lparr>inputFile := \<lparr>is_open = True, unread = C, eofbit = False, failbit = False\<rparr>\<rparr>"
  have op: "open env lib (FileSource_ctor path compression) = (Returned (), s1)"
    unfolding s1_def using assms(2,3,4) by (rule open_uncompressed)
  have "drain (length C + 1) lib buf s1 =
     Some (Returned (map (\<lambda>c. (withBytes (length c), c))
                       (chunks (length buf) (unread (inputFile s1))) @ [(eos, [])]),
           s1\<lparr>inputFile := (inputFile s1)\<lparr>unread := [], eofbit := True, failbit := True\<rparr>,
             totalNumBytesRead := totalNumBytesRead s1 + length (unread (inputFile s1))\<rparr>)"
    using assms(1,4)
    by (intro drain_uncompressed) (auto simp: s1_def FileSource_ctor_def good_def)
  then have dr: "\<exists>s2. drain (length C + 1) lib buf s1 =
      Some (Returned (map (\<lambda>c. (withBytes (length c), c)) (chunks (length buf) C)
                                @ [(eos, [])]), s2) \<and> totalNumBytesRead s2 = length C"
    by (simp add: s1_def FileSource_ctor_def)
  have hello: "drain 11 stub_zstd buf4 hello_source =
           Some (Returned [(withBytes 4, ''Hell''), (withBytes 4, ''oWor''),
                           (withBytes 2, ''ld''), (eos, [])],
                 hello_source
                   \<lparr>inputFile := \<lparr>is_open = True, unread = [], eofbit = True, failbit = True\<rparr>,
                     totalNumBytesRead := 10\<rparr>)"
    by code_simp
  have cc: "concat (chunks (length buf) C) = C"
    using assms(1) by (cases buf) (simp_all add: concat_chunks)
  from op dr hello cc chunks_nonempty[of "length buf" C]
  show ?thesis by blast
qed

theorem uncompressed_round_trip_witness:
  "1 \<le> length buf4 \<and>
   realpath demo_os ''/data/hello.txt'' = Some ''/data/hello.txt'' \<and>
   files demo_os ''/data/hello.txt'' = Some ''HelloWorld'' \<and>
   chunks (length buf4) ''HelloWorld'' = [''Hell'', ''oWor'', ''ld''] \<and>
   (\<exists>s1 s2.
      open demo_os stub_zstd (FileSource_ctor ''/data/hello.txt'' ''none'') = (Returned (), s1) \<and>
      drain (length ''HelloWorld'' + 1) stub_zstd buf4 s1 =
        Some (Returned [(withBytes 4, ''Hell''), (withBytes 4, ''oWor''),
                        (withBytes 2, ''ld''), (eos, [])], s2) \<and>
      totalNumBytesRead s2 = length ''HelloWorld'')"
proof -
  have h: "1 \<le> length buf4"
    "realpath demo_os ''/data/hello.txt'' = Some ''/data/hello.txt''"
    "files demo_os ''/data/hello.txt'' = Some ''HelloWorld''"
    by (simp_all add: buf4_def demo_os_simps demo_files_def)
  have c: "chunks (length buf4) ''HelloWorld'' = [''Hell'', ''oWor'', ''ld'']"
    by (simp add: buf4_def chunks.simps)
  have l: "map (\<lambda>c. (withBytes (length c), c)) [''Hell'', ''oWor'', ''ld''] @ [(eos, [])] =
           [(withBytes 4, ''Hell''), (withBytes 4, ''oWor''), (withBytes 2, ''ld''), (eos, [])]"
    by simp
  from uncompressed_round_trip[OF h disjI1[OF refl], of stub_zstd]
  obtain s1 s2 where
    a: "open demo_os stub_zstd (FileSource_ctor ''/data/hello.txt'' ''none'') = (Returned (), s1)"
    and b: "drain (length ''HelloWorld'' + 1) stub_zstd buf4 s1 =
              Some (Returned (map (\<lambda>c. (withBytes (length c), c))
                               (chunks (length buf4) ''HelloWorld'') @ [(eos, [])]), s2)"
    and n: "totalNumBytesRead s2 = length ''HelloWorld''"
    by blast
  from b have "drain (length ''HelloWorld'' + 1) stub_zstd buf4 s1 =
        Some (Returned [(withBytes 4, ''Hell''), (withBytes 4, ''oWor''),
                        (withBytes 2, ''ld''), (eos, [])], s2)"
    unfolding c l .
  with a n h c show ?thesis by blast
qed

lemma fillLoop_dest_length:
  assumes "fillLoop lib0 bs0 total0 dest0 s0 = Some y0"
  shows "zstd_contract lib0 \<longrightarrow> cursor_invariant s0 \<longrightarrow> bs0 \<le> length dest0 \<longrightarrow>
         (\<forall>t d. fst y0 = Returned (t, d) \<longrightarrow> length d = length dest0)"
proof (rule fillLoop.raw_induct
         [where P = "\<lambda>lib bs total dest s y.
            zstd_contract lib \<longrightarrow> cursor_invariant s \<longrightarrow> bs \<le> length dest \<longrightarrow>
            (\<forall>t d. fst y = Returned (t, d) \<longrightarrow> length d = length dest)",
          OF _ assms], goal_cases)
  case (1 rec lib bs total dest s y)
  show ?case
  proof (intro impI)
    assume lib: "zstd_contract lib" and inv: "cursor_invariant s" and bs: "bs \<le> length dest"
    show "\<forall>t d. fst y = Returned (t, d) \<longrightarrow> length d = length dest"
    proof (cases "total < bs")
      case False
      with 1(2) have "y = (Returned (total, dest), s)" by auto
      then show ?thesis by simp
    next
      case room: True
      show ?thesis
      proof (cases "decompressedOffset s < decompressedSize s")
        case True
        define n where "n = min (decompressedSize s - decompressedOffset s) (bs - total)"
        define s1 where "s1 = s\<lparr>decompressedOffset := decompressedOffset s + n\<rparr>"
        define dest1 where
          "dest1 = memcpy dest total (decompressedBuffer s) (decompressedOffset s) n"
        from 1(2) room True
        have "rec lib bs (total + n) dest1 s1 = Some y"
          by (simp add: Let_def n_def s1_def dest1_def)
        moreover have "cursor_invariant s1"
          using inv True by (auto simp: cursor_invariant_def s1_def n_def)
        moreover have "length dest1 = length dest"
          unfolding dest1_def using inv True room bs
          by (intro memcpy_length) (auto simp: cursor_invariant_def n_def)
        ultimately show ?thesis using 1(1) lib bs by fastforce
      next
        case False
        from 1(2) room False obtain out s1 where
          nb: "decompressNextBlock lib s = Some (out, s1)"
          by (cases "decompressNextBlock lib s") auto
        from inv have "decompressedSize s \<le> length (decompressedBuffer s)"
          by (simp add: cursor_invariant_def)
        note b = decompressNextBlock_bounds[OF lib nb this]
        show ?thesis
        proof (cases out)
          case (Threw e)
          with 1(2) room False nb have "y = (Threw e, s1)" by auto
          then show ?thesis by simp
        next
          case (Returned hasData)
          have inv1: "cursor_invariant s1"
            using b inv Returned by (simp add: cursor_invariant_def)
          show ?thesis
          proof (cases hasData)
            case nodata: False
            with 1(2) room False nb Returned have "y = (Returned (total, dest), s1)" by auto
            then show ?thesis by simp
          next
            case True
            with 1(2) room False nb Returned have "rec lib bs total dest s1 = Some y" by auto
            from 1(1)[OF this] lib inv1 bs show ?thesis by simp
          qed
        qed
      qed
    qed
  qed
qed

lemma fillTupleBuffer_step:
  assumes "fillTupleBuffer lib s buf = Some (Returned (r, d), s')" "fill_ready lib s"
  shows "totalNumBytesRead s' = totalNumBytesRead s + bytes_of r \<and>
         length d = length buf \<and> bytes_of r \<le> length buf \<and> fill_ready lib s'"
proof (cases "compressionType s = ''zstd''")
  case True
  with assms(1) obtain t s1 where
    loop: "fillLoop lib (length buf) 0 buf s = Some (Returned (t, d), s1)"
    and r: "r = (if t = 0 then eos else withBytes t)"
    and s': "s' = s1\<lparr>totalNumBytesRead := totalNumBytesRead s1 + t\<rparr>"
    by (auto simp: fillTupleBuffer_def Let_def
             split: option.splits prod.splits outcome.splits if_splits)
  from assms(2) True have lib: "zstd_contract lib" and inv: "cursor_invariant s"
    by (simp_all add: fill_ready_def)
  from fillLoop_bounds[OF loop] lib inv have "cursor_invariant s1" by simp
  then have "fill_ready lib s'"
    using lib by (simp add: fill_ready_def s' cursor_invariant_def)
  moreover from fillLoop_dest_length[OF loop] lib inv have "length d = length buf" by simp
  moreover note fillLoop_post[OF loop]
  ultimately show ?thesis using r s' by auto
next
  case False
  obtain got f where rd: "istream_read (inputFile s) (length buf) = (got, f)"
    by (cases "istream_read (inputFile s) (length buf)")
  have "length got \<le> length buf"
    using istream_read_length[of "inputFile s" "length buf"] rd by simp
  with assms(1) False rd show ?thesis
    by (auto simp: fillTupleBuffer_def Let_def memcpy_length fill_ready_def split: if_splits)
qed

lemma fillTupleBuffer_counter_mono:
  assumes "fillTupleBuffer lib s buf = Some (out, s')"
  shows "totalNumBytesRead s \<le> totalNumBytesRead s'"
proof (cases "compressionType s = ''zstd''")
  case True
  with assms obtain y where loop: "fillLoop lib (length buf) 0 buf s = Some y"
    and "totalNumBytesRead (snd y) \<le> totalNumBytesRead s'"
    by (auto simp: fillTupleBuffer_def Let_def
             split: option.splits prod.splits outcome.splits if_splits)
  with fillLoop_post[OF loop] show ?thesis by simp
next
  case False
  with assms show ?thesis
    by (auto simp: fillTupleBuffer_def Let_def split: prod.splits if_splits)
qed

lemma drain_counter:
  "drain fuel lib buf s = Some (Returned rs, s') \<Longrightarrow> fill_ready lib s \<Longrightarrow>
   totalNumBytesRead s' = totalNumBytesRead s + length (concat (map snd rs)) \<and>
   (\<forall>x \<in> set rs. length (snd x) = bytes_of (fst x)) \<and>
   rs \<noteq> [] \<and> fst (last rs) = eos"
proof (induction fuel arbitrary: s rs)
  case 0
  then show ?case by simp
next
  case (Suc fuel)
  from Suc.prems(1) obtain r d s1 where
    fill: "fillTupleBuffer lib s buf = Some (Returned (r, d), s1)"
    by (auto split: option.splits prod.splits outcome.splits)
  note step = fillTupleBuffer_step[OF fill Suc.prems(2)]
  show ?case
  proof (cases r)
    case eos
    with Suc.prems(1) fill step show ?thesis by auto
  next
    case (withBytes n)
    with Suc.prems(1) fill obtain rs1 where
      rest: "drain fuel lib buf s1 = Some (Returned rs1, s')"
      and rs: "rs = (withBytes n, take n d) # rs1"
      by (auto split: option.splits prod.splits outcome.splits)
    from Suc.IH[OF rest] step have
      "totalNumBytesRead s' = totalNumBytesRead s1 + length (concat (map snd rs1)) \<and>
       (\<forall>x \<in> set rs1. length (snd x) = bytes_of (fst x)) \<and>
       rs1 \<noteq> [] \<and> fst (last rs1) = eos" by simp
    then show ?thesis using step withBytes rs by auto
  qed
qed

lemma fillTupleBuffer_counter_step:
  assumes "fillTupleBuffer lib s buf = Some (Returned (r, d), s')"
  shows "totalNumBytesRead s' = totalNumBytesRead s + bytes_of r"
proof (cases "compressionType s = ''zstd''")
  case True
  with assms obtain t s1 where
    loop: "fillLoop lib (length buf) 0 buf s = Some (Returned (t, d), s1)"
    and r: "r = (if t = 0 then eos else withBytes t)"
    and s': "s' = s1\<lparr>totalNumBytesRead := totalNumBytesRead s1 + t\<rparr>"
    by (auto simp: fillTupleBuffer_def Let_def
             split: option.splits prod.splits outcome.splits if_splits)
  from fillLoop_post[OF loop] r s' show ?thesis by auto
next
  case False
  with assms show ?thesis
    by (auto simp: fillTupleBuffer_def Let_def split: prod.splits if_splits)
qed

text \<open>
  C9: a call that returns \<open>withBytes n\<close> adds exactly \<open>n\<close> to the byte counter; no
  call, whatever its outcome, lowers it; and when a source has been drained up to the
  final \<open>eos\<close> the counter has grown by the length of the content delivered. In the
  uncompressed mode that is the length of what the file still held.
\<close>

theorem byte_counter:
  "(\<forall>n d s'. fillTupleBuffer lib s buf = Some (Returned (withBytes n, d), s') \<longrightarrow>
       totalNumBytesRead s' = totalNumBytesRead s + n) \<and>
   (\<forall>out s'. fillTupleBuffer lib s buf = Some (out, s') \<longrightarrow>
       totalNumBytesRead s \<le> totalNumBytesRead s') \<and>
   (\<forall>rs s'. fill_ready lib s \<and> drain fuel lib buf s = Some (Returned rs, s') \<longrightarrow>
       fst (last rs) = eos \<and>
       totalNumBytesRead s' = totalNumBytesRead s + length (concat (map snd rs))) \<and>
   (compressionType s \<noteq> ''zstd'' \<and> good (inputFile s) \<and> is_open (inputFile s) \<and>
    buf \<noteq> [] \<and> length (unread (inputFile s)) < fuel \<longrightarrow>
      (\<exists>rs s'. drain fuel lib buf s = Some (Returned rs, s') \<and>
         totalNumBytesRead s' = totalNumBytesRead s + length (unread (inputFile s))))"
proof (intro conjI allI impI)
  fix n d s'
  assume "fillTupleBuffer lib s buf = Some (Returned (withBytes n, d), s')"
  from fillTupleBuffer_counter_step[OF this]
  show "totalNumBytesRead s' = totalNumBytesRead s + n" by simp
next
  fix out s'
  assume "fillTupleBuffer lib s buf = Some (out, s')"
  then show "totalNumBytesRead s \<le> totalNumBytesRead s'"
    by (rule fillTupleBuffer_counter_mono)
next
  fix rs s'
  assume h: "fill_ready lib s \<and> drain fuel lib buf s = Some (Returned rs, s')"
  then have "totalNumBytesRead s' = totalNumBytesRead s + length (concat (map snd rs)) \<and>
             (\<forall>x \<in> set rs. length (snd x) = bytes_of (fst x)) \<and>
             rs \<noteq> [] \<and> fst (last rs) = eos"
    using drain_counter[of fuel lib buf s rs s'] by simp
  then show "fst (last rs) = eos"
    "totalNumBytesRead s' = totalNumBytesRead s + length (concat (map snd rs))" by simp_all
next
  assume "compressionType s \<noteq> ''zstd'' \<and> good (inputFile s) \<and> is_open (inputFile s) \<and>
          buf \<noteq> [] \<and> length (unread (inputFile s)) < fuel"
  then have "drain fuel lib buf s =
     Some (Returned (map (\<lambda>c. (withBytes (length c), c))
                       (chunks (length buf) (unread (inputFile s))) @ [(eos, [])]),
           s\<lparr>inputFile := (inputFile s)\<lparr>unread := [], eofbit := True, failbit := True\<rparr>,
             totalNumBytesRead := totalNumBytesRead s + length (unread (inputFile s))\<rparr>)"
    using drain_uncompressed[of s buf fuel lib] by simp
  then show "\<exists>rs s'. drain fuel lib buf s = Some (Returned rs, s') \<and>
         totalNumBytesRead s' = totalNumBytesRead s + length (unread (inputFile s))"
    by simp
qed

theorem byte_counter_witness:
  "fillTupleBuffer stub_zstd short_source buf4 =
     Some (Returned (withBytes 2, ''ab'' @ replicate 2 (CHR 0x00)),
           short_source\<lparr>inputFile := (inputFile short_source)\<lparr>unread := ''cd''\<rparr>,
                         compressedBuffer := ''____'',
                         decompressedBuffer := ''ab'' @ replicate 6 (CHR 0x00),
                         totalNumBytesRead := 2\<rparr>) \<and>
   totalNumBytesRead short_source = 0 \<and>
   fill_ready stub_zstd short_source \<and>
   drain 11 stub_zstd buf4 short_source =
     Some (Returned [(withBytes 2, ''ab''), (withBytes 2, ''cd''), (eos, [])],
           short_source\<lparr>inputFile := \<lparr>is_open = True, unread = [], eofbit = True, failbit = True\<rparr>,
                         compressedBuffer := ''cd__'',
                         decompressedBuffer := ''cd'' @ replicate 6 (CHR 0x00),
                         decompressedOffset := 2, decompressedSize := 2,
                         endOfCompressedStream := True,
                         totalNumBytesRead := 4\<rparr>) \<and>
   compressionType hello_source \<noteq> ''zstd'' \<and> good (inputFile hello_source) \<and>
   is_open (inputFile hello_source) \<and> buf4 \<noteq> [] \<and>
   length (unread (inputFile hello_source)) < 11 \<and>
   (\<exists>rs s'. drain 11 stub_zstd buf4 hello_source = Some (Returned rs, s') \<and>
      totalNumBytesRead s' = 10)"
proof -
  have e1: "fillTupleBuffer stub_zstd short_source buf4 =
     Some (Returned (withBytes 2, ''ab'' @ replicate 2 (CHR 0x00)),
           short_source\<lparr>inputFile := (inputFile short_source)\<lparr>unread := ''cd''\<rparr>,
                         compressedBuffer := ''____'',
                         decompressedBuffer := ''ab'' @ replicate 6 (CHR 0x00),
                         totalNumBytesRead := 2\<rparr>)"
    by code_simp
  have e2: "drain 11 stub_zstd buf4 short_source =
     Some (Returned [(withBytes 2, ''ab''), (withBytes 2, ''cd''), (eos, [])],
           short_source\<lparr>inputFile := \<lparr>is_open = True, unread = [], eofbit = True, failbit = True\<rparr>,
                         compressedBuffer := ''cd__'',
                         decompressedBuffer := ''cd'' @ replicate 6 (CHR 0x00),
                         decompressedOffset := 2, decompressedSize := 2,
                         endOfCompressedStream := True,
                         totalNumBytesRead := 4\<rparr>)"
    by code_simp
  have r: "fill_ready stub_zstd short_source" "totalNumBytesRead short_source = 0"
    by (simp_all add: fill_ready_def stub_zstd_contract cursor_invariant_def zstd_source_eq)
  have h: "compressionType hello_source \<noteq> ''zstd''" "good (inputFile hello_source)"
    "is_open (inputFile hello_source)" "buf4 \<noteq> []"
    "length (unread (inputFile hello_source)) < 11"
    "totalNumBytesRead hello_source + length (unread (inputFile hello_source)) = 10"
    by (simp_all add: hello_source_eq good_def buf4_def)
  from byte_counter[of stub_zstd hello_source buf4 11] h
  have "\<exists>rs s'. drain 11 stub_zstd buf4 hello_source = Some (Returned rs, s') \<and>
      totalNumBytesRead s' = 10"
    by (simp del: drain.simps)
  with byte_counter[of stub_zstd short_source buf4 11] e1 e2 r h
  show ?thesis by (simp del: drain.simps)
qed

lemma decompressNextBlock_size_reset:
  "\<not> endOfCompressedStream s \<Longrightarrow>
   fst (istream_read (inputFile s) (length (compressedBuffer s))) \<noteq> [] \<Longrightarrow>
   decompressNextBlock lib (s\<lparr>decompressedSize := n\<rparr>) = decompressNextBlock lib s"
  by (cases "istream_read (inputFile s) (length (compressedBuffer s))")
     (simp add: decompressNextBlock_def Let_def)

lemma decompressNextBlock_no_input:
  "\<not> endOfCompressedStream s \<Longrightarrow>
   fst (istream_read (inputFile s) (length (compressedBuffer s))) = [] \<Longrightarrow>
   decompressNextBlock lib s =
        Some (Returned False,
              s\<lparr>inputFile := snd (istream_read (inputFile s) (length (compressedBuffer s))),
                endOfCompressedStream := True\<rparr>)"
  by (cases "istream_read (inputFile s) (length (compressedBuffer s))")
     (simp add: decompressNextBlock_def Let_def memcpy_nothing)

lemma decompressLoop_refines:
  assumes "decompressLoop lib0 input0 pos0 s0 = Some y0"
  shows "zstd_contract lib0 \<longrightarrow> decompressedSize s0 \<le> length (decompressedBuffer s0) \<longrightarrow>
         (\<forall>ctx. zstdContext s0 = Some ctx \<longrightarrow>
            decoded_as_spec lib0 ctx (drop pos0 input0) (length (decompressedBuffer s0))
              (take (decompressedSize s0) (decompressedBuffer s0)) y0)"
proof (rule decompressLoop.raw_induct
         [where P = "\<lambda>lib input pos s y.
            zstd_contract lib \<longrightarrow> decompressedSize s \<le> length (decompressedBuffer s) \<longrightarrow>
            (\<forall>ctx. zstdContext s = Some ctx \<longrightarrow>
               decoded_as_spec lib ctx (drop pos input) (length (decompressedBuffer s))
                 (take (decompressedSize s) (decompressedBuffer s)) y)",
          OF _ assms], goal_cases)
  case (1 rec lib input pos s y)
  show ?case
  proof (intro impI allI)
    fix ctx
    assume lib: "zstd_contract lib"
      and w: "decompressedSize s \<le> length (decompressedBuffer s)"
      and ctx: "zstdContext s = Some ctx"
    define cap where "cap = length (decompressedBuffer s)"
    define em where "em = take (decompressedSize s) (decompressedBuffer s)"
    have lem: "length em = decompressedSize s" using w by (simp add: em_def)
    show "decoded_as_spec lib ctx (drop pos input) (length (decompressedBuffer s))
            (take (decompressedSize s) (decompressedBuffer s)) y"
      unfolding cap_def[symmetric] em_def[symmetric]
    proof (cases "pos < length input")
      case False
      with 1(2) have y: "y = (Returned (), s)" by auto
      from False have "spec_decodeChunk lib ctx (drop pos input) cap em = Some (Inr (ctx, em))"
        by (subst spec_decodeChunk.simps) simp
      with y ctx w show "decoded_as_spec lib ctx (drop pos input) cap em y"
        by (simp add: decoded_as_spec_def em_def)
    next
      case True
      define r where "r = ZSTD_decompressStream lib ctx (drop pos input)
                        (length (decompressedBuffer s) - decompressedSize s)"
      define s1 where "s1 = s\<lparr>zstdContext := Some (zctx r),
                         decompressedBuffer :=
                           memcpy (decompressedBuffer s) (decompressedSize s) (zout r) 0
                             (length (zout r))\<rparr>"
      define s2 where "s2 = s1\<lparr>decompressedSize := decompressedSize s1 + length (zout r)\<rparr>"
      have room: "length (zout r) \<le> length (decompressedBuffer s) - decompressedSize s"
        using lib by (simp add: zstd_contract_def r_def)
      have len2: "length (decompressedBuffer s2) = cap"
        using room w by (simp add: s1_def s2_def memcpy_length cap_def)
      have sz2: "decompressedSize s2 = length (em @ zout r)"
        by (simp add: s1_def s2_def lem)
      have em2: "take (decompressedSize s2) (decompressedBuffer s2) = em @ zout r"
        using w by (simp add: s1_def s2_def memcpy_def em_def)
      have unfold: "spec_decodeChunk lib ctx (drop pos input) cap em =
          (case zerror r of
             Some name \<Rightarrow> Some (Inl name)
           | None \<Rightarrow>
               if cap \<le> length (em @ zout r) then Some (Inr (zctx r, em @ zout r))
               else spec_decodeChunk lib (zctx r) (drop (pos + zconsumed r) input) cap
                      (em @ zout r))"
        using True unfolding r_def cap_def lem[symmetric]
        by (subst spec_decodeChunk.simps) (simp add: Let_def add.commute split: option.split)
      show "decoded_as_spec lib ctx (drop pos input) cap em y"
      proof (cases "zerror r")
        case (Some name)
        with 1(2) True ctx
        have "y = (Threw (InvalidConfigParameter (''ZSTD decompression error: '' @ name)), s1)"
          by (auto simp: Let_def r_def s1_def)
        with Some show ?thesis by (simp add: decoded_as_spec_def unfold)
      next
        case None
        show ?thesis
        proof (cases "decompressedSize s2 \<ge> length (decompressedBuffer s2)")
          case brk: True
          with 1(2) True ctx None have y: "y = (Returned (), s2)"
            by (simp add: Let_def r_def s1_def s2_def)
          from brk have "cap \<le> length (em @ zout r)" using len2 sz2 by simp
          with None have "spec_decodeChunk lib ctx (drop pos input) cap em =
                            Some (Inr (zctx r, em @ zout r))"
            by (simp add: unfold)
          moreover have "zstdContext s2 = Some (zctx r)" by (simp add: s1_def s2_def)
          moreover have "decompressedSize s2 \<le> length (decompressedBuffer s2)"
            using room w len2 by (simp add: s1_def s2_def cap_def)
          ultimately show ?thesis using y em2 by (simp add: decoded_as_spec_def)
        next
          case False
          with 1(2) True ctx None have "rec lib input (pos + zconsumed r) s2 = Some y"
            by (simp add: Let_def r_def s1_def s2_def)
          from 1(1)[OF this] lib False
          have "decoded_as_spec lib (zctx r) (drop (pos + zconsumed r) input)
                  (length (decompressedBuffer s2))
                  (take (decompressedSize s2) (decompressedBuffer s2)) y"
            by (simp add: s1_def s2_def)
          then have "decoded_as_spec lib (zctx r) (drop (pos + zconsumed r) input) cap
                       (em @ zout r) y"
            by (simp only: len2 em2)
          moreover from False have "\<not> cap \<le> length (em @ zout r)" using len2 sz2 by simp
          with None have "spec_decodeChunk lib ctx (drop pos input) cap em =
              spec_decodeChunk lib (zctx r) (drop (pos + zconsumed r) input) cap (em @ zout r)"
            by (simp add: unfold)
          ultimately show ?thesis
            by (simp only: decoded_as_spec_def)
        qed
      qed
    qed
  qed
qed

lemma decompressNextBlock_refines:
  assumes "zstd_contract lib" "\<not> endOfCompressedStream s"
    and "fst (istream_read (inputFile s) (length (compressedBuffer s))) \<noteq> []"
    and "zstdContext s = Some ctx" "decompressNextBlock lib s = Some (out, s')"
  shows "decoded_as_spec lib ctx (fst (istream_read (inputFile s) (length (compressedBuffer s))))
           (length (decompressedBuffer s)) [] (out, s')"
proof -
  obtain got f where rd: "istream_read (inputFile s) (length (compressedBuffer s)) = (got, f)"
    by (cases "istream_read (inputFile s) (length (compressedBuffer s))")
  define s1 where "s1 = s\<lparr>inputFile := f,
                   compressedBuffer := memcpy (compressedBuffer s) 0 got 0 (length got)\<rparr>"
  have "length got \<le> length (compressedBuffer s)"
    using istream_read_length[of "inputFile s" "length (compressedBuffer s)"] rd by simp
  then have chunk: "take (length got) (memcpy (compressedBuffer s) 0 got 0 (length got)) = got"
    by (simp add: memcpy_def)
  from assms(2,3,5) rd obtain u s2 where
    loop: "decompressLoop lib (take (length got) (compressedBuffer s1)) 0
             (s1\<lparr>decompressedSize := 0\<rparr>) = Some (u, s2)"
    and res: "(\<exists>e. u = Threw e \<and> out = Threw e \<and> s' = s2) \<or>
              (u = Returned () \<and> out = Returned (decompressedSize s2 > 0) \<and>
               s' = s2\<lparr>decompressedOffset := 0\<rparr>)"
    by (auto simp: decompressNextBlock_def s1_def Let_def
             split: option.splits outcome.splits)
  from decompressLoop_refines[OF loop] assms(1,4)
  have "decoded_as_spec lib ctx got (length (decompressedBuffer s)) [] (u, s2)"
    by (simp add: s1_def chunk)
  with res rd show ?thesis
    by (auto simp: decoded_as_spec_def)
qed

text \<open>
  C7: \<^verbatim>\<open>decompressNextBlock\<close> on an exhausted stream returns false and leaves the
  object as it is; when the read yields no byte it sets \<open>endOfCompressedStream\<close>,
  changes nothing else but the stream, and returns false; otherwise the outcome does not
  depend on the old \<open>decompressedSize\<close> (it is reset before decoding), the flag stays
  unset, and a call that returns has \<open>decompressedOffset = 0\<close> and returns true exactly
  when \<open>decompressedSize > 0\<close>. When the library keeps its contract the outcome is
  that of the decode of the spec on the bytes read, started with nothing emitted: the
  bytes emitted are the first \<open>decompressedSize\<close> bytes of the output staging buffer,
  the context is the one the decode ends with, and a raise carries the codec's error
  name. The call returns or raises when the library also makes progress.
\<close>

theorem decompressNextBlock_contract:
  "(endOfCompressedStream s \<longrightarrow> decompressNextBlock lib s = Some (Returned False, s)) \<and>
   (\<not> endOfCompressedStream s \<and>
    fst (istream_read (inputFile s) (length (compressedBuffer s))) = [] \<longrightarrow>
      decompressNextBlock lib s =
        Some (Returned False,
              s\<lparr>inputFile := snd (istream_read (inputFile s) (length (compressedBuffer s))),
                endOfCompressedStream := True\<rparr>)) \<and>
   (\<not> endOfCompressedStream s \<and>
    fst (istream_read (inputFile s) (length (compressedBuffer s))) \<noteq> [] \<longrightarrow>
      (\<forall>n. decompressNextBlock lib (s\<lparr>decompressedSize := n\<rparr>) = decompressNextBlock lib s) \<and>
      (\<forall>out s'. decompressNextBlock lib s = Some (out, s') \<longrightarrow>
         \<not> endOfCompressedStream s' \<and>
         inputFile s' = snd (istream_read (inputFile s) (length (compressedBuffer s))) \<and>
         (\<forall>b. out = Returned b \<longrightarrow>
            decompressedOffset s' = 0 \<and> b = (0 < decompressedSize s'))) \<and>
      (zstd_contract lib \<longrightarrow>
         (\<forall>ctx out s'. zstdContext s = Some ctx \<and> decompressNextBlock lib s = Some (out, s') \<longrightarrow>
            decoded_as_spec lib ctx
              (fst (istream_read (inputFile s) (length (compressedBuffer s))))
              (length (decompressedBuffer s)) [] (out, s')))) \<and>
   (zstd_contract lib \<and> zstd_progress lib \<and> zstdContext s \<noteq> None \<longrightarrow>
      (\<exists>y. decompressNextBlock lib s = Some y))"
proof (intro conjI impI allI)
  assume "endOfCompressedStream s"
  then show "decompressNextBlock lib s = Some (Returned False, s)"
    by (rule decompressNextBlock_exhausted)
next
  assume "\<not> endOfCompressedStream s \<and>
          fst (istream_read (inputFile s) (length (compressedBuffer s))) = []"
  then show "decompressNextBlock lib s =
        Some (Returned False,
              s\<lparr>inputFile := snd (istream_read (inputFile s) (length (compressedBuffer s))),
                endOfCompressedStream := True\<rparr>)"
    by (simp add: decompressNextBlock_no_input)
next
  fix n
  assume "\<not> endOfCompressedStream s \<and>
          fst (istream_read (inputFile s) (length (compressedBuffer s))) \<noteq> []"
  then show "decompressNextBlock lib (s\<lparr>decompressedSize := n\<rparr>) = decompressNextBlock lib s"
    by (simp add: decompressNextBlock_size_reset)
next
  fix out s'
  assume h: "\<not> endOfCompressedStream s \<and>
          fst (istream_read (inputFile s) (length (compressedBuffer s))) \<noteq> []"
    and r: "decompressNextBlock lib s = Some (out, s')"
  obtain got f where rd: "istream_read (inputFile s) (length (compressedBuffer s)) = (got, f)"
    by (cases "istream_read (inputFile s) (length (compressedBuffer s))")
  define s1 where "s1 = s\<lparr>inputFile := f,
                   compressedBuffer := memcpy (compressedBuffer s) 0 got 0 (length got)\<rparr>"
  from r h rd obtain u s2 where
    loop: "decompressLoop lib (take (length got) (compressedBuffer s1)) 0
             (s1\<lparr>decompressedSize := 0\<rparr>) = Some (u, s2)"
    and res: "(\<exists>e. u = Threw e \<and> out = Threw e \<and> s' = s2) \<or>
              (u = Returned () \<and> out = Returned (decompressedSize s2 > 0) \<and>
               s' = s2\<lparr>decompressedOffset := 0\<rparr>)"
    by (auto simp: decompressNextBlock_def s1_def Let_def
             split: option.splits outcome.splits)
  from decompressLoop_frame[OF loop]
  have fr: "inputFile s2 = f" "endOfCompressedStream s2 = endOfCompressedStream s"
    by (simp_all add: decoder_frame_def s1_def)
  from res fr h rd
  show "\<not> endOfCompressedStream s'"
    "inputFile s' = snd (istream_read (inputFile s) (length (compressedBuffer s)))"
    by auto
  { fix b assume "out = Returned b"
    with res show "decompressedOffset s' = 0" "b = (0 < decompressedSize s')" by auto }
next
  fix ctx out s'
  assume "\<not> endOfCompressedStream s \<and>
          fst (istream_read (inputFile s) (length (compressedBuffer s))) \<noteq> []"
    and "zstd_contract lib"
    and "zstdContext s = Some ctx \<and> decompressNextBlock lib s = Some (out, s')"
  then show "decoded_as_spec lib ctx
              (fst (istream_read (inputFile s) (length (compressedBuffer s))))
              (length (decompressedBuffer s)) [] (out, s')"
    using decompressNextBlock_refines[of lib s ctx out s'] by blast
next
  assume "zstd_contract lib \<and> zstd_progress lib \<and> zstdContext s \<noteq> None"
  then show "\<exists>y. decompressNextBlock lib s = Some y"
    using decompressNextBlock_returns[of lib s] by blast
qed



theorem decompressNextBlock_contract_witness:
  "endOfCompressedStream exhausted_source \<and>
   decompressNextBlock stub_zstd exhausted_source = Some (Returned False, exhausted_source) \<and>
   \<not> endOfCompressedStream empty_source \<and>
   fst (istream_read (inputFile empty_source) (length (compressedBuffer empty_source))) = [] \<and>
   decompressNextBlock stub_zstd empty_source =
     Some (Returned False,
           empty_source\<lparr>inputFile := (inputFile empty_source)\<lparr>eofbit := True, failbit := True\<rparr>,
                         endOfCompressedStream := True\<rparr>) \<and>
   \<not> endOfCompressedStream short_source \<and>
   fst (istream_read (inputFile short_source) (length (compressedBuffer short_source))) = ''ab__'' \<and>
   decompressNextBlock stub_zstd (short_source\<lparr>decompressedSize := 5\<rparr>) =
     Some (Returned True,
           short_source\<lparr>inputFile := (inputFile short_source)\<lparr>unread := ''____cd''\<rparr>,
                         compressedBuffer := ''ab__'',
                         decompressedBuffer := ''ab'' @ replicate 6 (CHR 0x00),
                         decompressedSize := 2\<rparr>) \<and>
   zstd_contract stub_zstd \<and> zstd_progress stub_zstd \<and> zstdContext short_source \<noteq> None \<and>
   zstdContext short_source = Some () \<and>
   spec_decodeChunk stub_zstd () ''ab__'' (length (decompressedBuffer short_source)) [] =
     Some (Inr ((), ''ab'')) \<and>
   decoded_as_spec stub_zstd () ''ab__'' (length (decompressedBuffer short_source)) []
     (Returned True,
      short_source\<lparr>inputFile := (inputFile short_source)\<lparr>unread := ''____cd''\<rparr>,
                    compressedBuffer := ''ab__'',
                    decompressedBuffer := ''ab'' @ replicate 6 (CHR 0x00),
                    decompressedSize := 2\<rparr>)"
proof -
  have e1: "decompressNextBlock stub_zstd short_source =
     Some (Returned True,
           short_source\<lparr>inputFile := (inputFile short_source)\<lparr>unread := ''____cd''\<rparr>,
                         compressedBuffer := ''ab__'',
                         decompressedBuffer := ''ab'' @ replicate 6 (CHR 0x00),
                         decompressedSize := 2\<rparr>)"
    by code_simp
  have h1: "endOfCompressedStream exhausted_source"
    by (simp add: exhausted_source_def)
  have h2: "\<not> endOfCompressedStream empty_source"
    "fst (istream_read (inputFile empty_source) (length (compressedBuffer empty_source))) = []"
    by (simp_all add: empty_source_def zstd_source_eq istream_read_def good_def)
  have h2': "snd (istream_read (inputFile empty_source) (length (compressedBuffer empty_source))) =
       (inputFile empty_source)\<lparr>eofbit := True, failbit := True\<rparr>"
    by (simp add: empty_source_def zstd_source_eq istream_read_def good_def)
  have h3: "\<not> endOfCompressedStream short_source"
    "fst (istream_read (inputFile short_source) (length (compressedBuffer short_source))) = ''ab__''"
    by (simp_all add: zstd_source_eq istream_read_def good_def)
  have h3': "fst (istream_read (inputFile short_source) (length (compressedBuffer short_source))) \<noteq> []"
    unfolding h3 by simp
  have c: "zstdContext short_source \<noteq> None" by (simp add: zstd_source_eq)
  have a1: "decompressNextBlock stub_zstd exhausted_source = Some (Returned False, exhausted_source)"
    using decompressNextBlock_contract[of exhausted_source stub_zstd] h1 by blast
  have a2: "decompressNextBlock stub_zstd empty_source =
     Some (Returned False,
           empty_source\<lparr>inputFile := (inputFile empty_source)\<lparr>eofbit := True, failbit := True\<rparr>,
                         endOfCompressedStream := True\<rparr>)"
    using decompressNextBlock_contract[of empty_source stub_zstd] h2 unfolding h2' by blast
  have a3: "decompressNextBlock stub_zstd (short_source\<lparr>decompressedSize := 5\<rparr>) =
            decompressNextBlock stub_zstd short_source"
    using decompressNextBlock_contract[of short_source stub_zstd] h3(1) h3' by blast
  have c': "zstdContext short_source = Some ()" by (simp add: zstd_source_eq)
  have d: "spec_decodeChunk stub_zstd () ''ab__'' (length (decompressedBuffer short_source)) [] =
     Some (Inr ((), ''ab''))"
    by code_simp
  have a4: "decoded_as_spec stub_zstd () ''ab__'' (length (decompressedBuffer short_source)) []
     (Returned True,
      short_source\<lparr>inputFile := (inputFile short_source)\<lparr>unread := ''____cd''\<rparr>,
                    compressedBuffer := ''ab__'',
                    decompressedBuffer := ''ab'' @ replicate 6 (CHR 0x00),
                    decompressedSize := 2\<rparr>)"
    using decompressNextBlock_contract[of short_source stub_zstd] h3(1) h3' c' e1
      stub_zstd_contract
    unfolding h3(2) by blast
  from a1 a2 a3 a4 e1 h1 h2 h3 c c' d stub_zstd_contract stub_zstd_progress
  show ?thesis by (simp only: simp_thms)
qed

lemma length_resize: "length (resize v n) = n"
  by (simp add: resize_def)

lemma open_zstd_cursors:
  assumes "compressionType s0 = ''zstd''" "open env lib s0 = (Returned (), s)"
  shows "decompressedOffset s = 0 \<and> decompressedSize s = 0 \<and>
         length (decompressedBuffer s) = ZSTD_DStreamOutSize lib \<and>
         length (compressedBuffer s) = ZSTD_DStreamInSize lib \<and>
         \<not> endOfCompressedStream s \<and> zstdContext s \<noteq> None"
  using assms
  by (auto simp: open_def Let_def length_resize split: if_splits)

lemma fillTupleBuffer_bounds:
  assumes "zstd_contract lib" "cursor_invariant s" "fillTupleBuffer lib s buf = Some (out, s')"
  shows "length (decompressedBuffer s') = length (decompressedBuffer s) \<and>
         decompressedSize s' \<le> length (decompressedBuffer s') \<and>
         ((\<exists>r. out = Returned r) \<longrightarrow> cursor_invariant s')"
proof (cases "compressionType s = ''zstd''")
  case True
  with assms(3) obtain o1 s1 where
    loop: "fillLoop lib (length buf) 0 buf s = Some (o1, s1)"
    and fr: "decompressedBuffer s' = decompressedBuffer s1" "decompressedSize s' = decompressedSize s1"
      "decompressedOffset s' = decompressedOffset s1"
    and o: "(\<exists>r. out = Returned r) \<longrightarrow> (\<exists>r. o1 = Returned r)"
    by (auto simp: fillTupleBuffer_def Let_def
             split: option.splits prod.splits outcome.splits if_splits)
  from fillLoop_bounds[OF loop] assms(1,2) fr o show ?thesis
    by (auto simp: cursor_invariant_def)
next
  case False
  with assms(2,3) show ?thesis
    by (auto simp: fillTupleBuffer_def Let_def cursor_invariant_def split: prod.splits if_splits)
qed

lemma fillLoop_size_bound:
  assumes "fillLoop lib0 bs0 total0 dest0 s0 = Some y0"
  shows "zstd_contract lib0 \<longrightarrow> decompressedSize s0 \<le> length (decompressedBuffer s0) \<longrightarrow>
         length (decompressedBuffer (snd y0)) = length (decompressedBuffer s0) \<and>
         decompressedSize (snd y0) \<le> length (decompressedBuffer (snd y0))"
proof (rule fillLoop.raw_induct
         [where P = "\<lambda>lib bs total dest s y.
            zstd_contract lib \<longrightarrow> decompressedSize s \<le> length (decompressedBuffer s) \<longrightarrow>
            length (decompressedBuffer (snd y)) = length (decompressedBuffer s) \<and>
            decompressedSize (snd y) \<le> length (decompressedBuffer (snd y))",
          OF _ assms], goal_cases)
  case (1 rec lib bs total dest s y)
  show ?case
  proof (intro impI)
    assume lib: "zstd_contract lib"
      and w: "decompressedSize s \<le> length (decompressedBuffer s)"
    show "length (decompressedBuffer (snd y)) = length (decompressedBuffer s) \<and>
          decompressedSize (snd y) \<le> length (decompressedBuffer (snd y))"
    proof (cases "total < bs")
      case False
      with 1(2) have "y = (Returned (total, dest), s)" by auto
      with w show ?thesis by simp
    next
      case room: True
      show ?thesis
      proof (cases "decompressedOffset s < decompressedSize s")
        case True
        define n where "n = min (decompressedSize s - decompressedOffset s) (bs - total)"
        define s1 where "s1 = s\<lparr>decompressedOffset := decompressedOffset s + n\<rparr>"
        from 1(2) room True
        have "rec lib bs (total + n)
                (memcpy dest total (decompressedBuffer s) (decompressedOffset s) n) s1 = Some y"
          by (simp add: Let_def n_def s1_def)
        from 1(1)[OF this] lib w show ?thesis by (simp add: s1_def)
      next
        case False
        from 1(2) room False obtain out s1 where
          nb: "decompressNextBlock lib s = Some (out, s1)"
          by (cases "decompressNextBlock lib s") auto
        note b = decompressNextBlock_bounds[OF lib nb w]
        show ?thesis
        proof (cases out)
          case (Threw e)
          with 1(2) room False nb have "y = (Threw e, s1)" by auto
          with b show ?thesis by simp
        next
          case (Returned hasData)
          show ?thesis
          proof (cases hasData)
            case nodata: False
            with 1(2) room False nb Returned have "y = (Returned (total, dest), s1)" by auto
            with b show ?thesis by simp
          next
            case True
            with 1(2) room False nb Returned have "rec lib bs total dest s1 = Some y" by auto
            from 1(1)[OF this] lib b show ?thesis by simp
          qed
        qed
      qed
    qed
  qed
qed

lemma fillTupleBuffer_size_bound:
  assumes "zstd_contract lib" "decompressedSize s \<le> length (decompressedBuffer s)"
    and "fillTupleBuffer lib s buf = Some (out, s')"
  shows "length (decompressedBuffer s') = length (decompressedBuffer s) \<and>
         decompressedSize s' \<le> length (decompressedBuffer s')"
proof (cases "compressionType s = ''zstd''")
  case True
  with assms(3) obtain o1 s1 where
    loop: "fillLoop lib (length buf) 0 buf s = Some (o1, s1)"
    and fr: "decompressedBuffer s' = decompressedBuffer s1" "decompressedSize s' = decompressedSize s1"
    by (auto simp: fillTupleBuffer_def Let_def
             split: option.splits prod.splits outcome.splits if_splits)
  from fillLoop_size_bound[OF loop] assms(1,2) fr show ?thesis by simp
next
  case False
  with assms(2,3) show ?thesis
    by (auto simp: fillTupleBuffer_def Let_def split: prod.splits if_splits)
qed

lemma run_call_bounds:
  assumes "zstd_contract lib" "decompressedSize s \<le> length (decompressedBuffer s)"
    and "run_call lib c s = Some (ok, s')"
  shows "length (decompressedBuffer s') = length (decompressedBuffer s) \<and>
         decompressedSize s' \<le> length (decompressedBuffer s') \<and>
         (ok \<longrightarrow> cursor_invariant s \<longrightarrow> cursor_invariant s')"
proof (cases c)
  case DecodeNextBlock
  with assms(3) obtain out where nb: "decompressNextBlock lib s = Some (out, s')"
    and ok: "ok \<longrightarrow> (\<exists>b. out = Returned b)"
    by (auto split: option.splits outcome.splits)
  from decompressNextBlock_bounds[OF assms(1) nb assms(2)] ok show ?thesis
    by (auto simp: cursor_invariant_def)
next
  case (FillBuffer buf)
  with assms(3) obtain out where f: "fillTupleBuffer lib s buf = Some (out, s')"
    and ok: "ok \<longrightarrow> (\<exists>r. out = Returned r)"
    by (auto split: option.splits outcome.splits)
  from fillTupleBuffer_size_bound[OF assms(1,2) f] fillTupleBuffer_bounds[OF assms(1) _ f] ok
  show ?thesis by auto
qed

lemma session_bounds:
  "zstd_contract lib \<Longrightarrow> decompressedSize s \<le> length (decompressedBuffer s) \<Longrightarrow>
   session lib cs s = Some (ok, s') \<Longrightarrow>
   length (decompressedBuffer s') = length (decompressedBuffer s) \<and>
   decompressedSize s' \<le> length (decompressedBuffer s') \<and>
   (ok \<longrightarrow> cursor_invariant s \<longrightarrow> cursor_invariant s')"
proof (induction cs arbitrary: s ok)
  case Nil
  then show ?case by simp
next
  case (Cons c cs)
  from Cons.prems(3) obtain ok1 s1 oks where
    c: "run_call lib c s = Some (ok1, s1)"
    and r: "session lib cs s1 = Some (oks, s')"
    and ok: "ok = (ok1 \<and> oks)"
    by (auto split: option.splits prod.splits)
  note b1 = run_call_bounds[OF Cons.prems(1,2) c]
  then have w1: "decompressedSize s1 \<le> length (decompressedBuffer s1)" by simp
  from Cons.IH[OF Cons.prems(1) w1 r] b1 ok show ?case by auto
qed

text \<open>
  C8, as the code has it: when the library keeps its contract, the cursors of a source
  opened in zstd mode satisfy
  \<open>decompressedOffset \<le> decompressedSize \<le> length decompressedBuffer\<close> after
  \<^verbatim>\<open>open\<close> and after every \<^verbatim>\<open>decompressNextBlock\<close> and
  \<^verbatim>\<open>fillTupleBuffer\<close> call of a session in which no call has raised so far. Once
  a call has raised, \<open>decompressedSize \<le> length decompressedBuffer\<close> still holds, after
  it and after every later call, so the output of one decode never exceeds the capacity
  of the output staging buffer, whose length stays the one \<^verbatim>\<open>open\<close> gave it. One
  call from a state with the cursors in order keeps them in order when it returns.
\<close>

theorem cursor_invariant_preserved:
  assumes "zstd_contract lib"
  shows "(compressionType s0 = ''zstd'' \<and> open env lib s0 = (Returned (), s1) \<longrightarrow>
            cursor_invariant s1 \<and>
            (\<forall>calls ok s'. session lib calls s1 = Some (ok, s') \<longrightarrow>
               length (decompressedBuffer s') = ZSTD_DStreamOutSize lib \<and>
               decompressedSize s' \<le> length (decompressedBuffer s') \<and>
               (ok \<longrightarrow> cursor_invariant s'))) \<and>
         (cursor_invariant s \<longrightarrow>
            (\<forall>out s'. decompressNextBlock lib s = Some (out, s') \<longrightarrow>
               length (decompressedBuffer s') = length (decompressedBuffer s) \<and>
               decompressedSize s' \<le> length (decompressedBuffer s') \<and>
               ((\<exists>b. out = Returned b) \<longrightarrow> cursor_invariant s')) \<and>
            (\<forall>out s'. fillTupleBuffer lib s buf = Some (out, s') \<longrightarrow>
               length (decompressedBuffer s') = length (decompressedBuffer s) \<and>
               decompressedSize s' \<le> length (decompressedBuffer s') \<and>
               ((\<exists>r. out = Returned r) \<longrightarrow> cursor_invariant s')))"
proof (intro conjI impI allI)
  assume op: "compressionType s0 = ''zstd'' \<and> open env lib s0 = (Returned (), s1)"
  then show inv1: "cursor_invariant s1"
    using open_zstd_cursors[of s0 env lib s1] by (simp add: cursor_invariant_def)
  fix calls ok s'
  assume run: "session lib calls s1 = Some (ok, s')"
  from op have len1: "length (decompressedBuffer s1) = ZSTD_DStreamOutSize lib"
    using open_zstd_cursors[of s0 env lib s1] by simp
  from inv1 have w1: "decompressedSize s1 \<le> length (decompressedBuffer s1)"
    by (simp add: cursor_invariant_def)
  from session_bounds[OF assms w1 run] len1 inv1
  show "length (decompressedBuffer s') = ZSTD_DStreamOutSize lib"
    "decompressedSize s' \<le> length (decompressedBuffer s')" by simp_all
  { assume ok
    with session_bounds[OF assms w1 run] inv1 show "cursor_invariant s'" by simp }
next
  fix out s'
  assume inv: "cursor_invariant s" and r: "decompressNextBlock lib s = Some (out, s')"
  from inv have "decompressedSize s \<le> length (decompressedBuffer s)"
    by (simp add: cursor_invariant_def)
  from decompressNextBlock_bounds[OF assms r this] inv
  show "length (decompressedBuffer s') = length (decompressedBuffer s)"
    "decompressedSize s' \<le> length (decompressedBuffer s')"
    by (simp_all add: cursor_invariant_def)
  { assume "\<exists>b. out = Returned b"
    with decompressNextBlock_bounds[OF assms r \<open>decompressedSize s \<le> _\<close>] inv
    show "cursor_invariant s'" by (simp add: cursor_invariant_def) }
next
  fix out s'
  assume inv: "cursor_invariant s" and r: "fillTupleBuffer lib s buf = Some (out, s')"
  from fillTupleBuffer_bounds[OF assms inv r]
  show "length (decompressedBuffer s') = length (decompressedBuffer s)"
    "decompressedSize s' \<le> length (decompressedBuffer s')" by simp_all
  { assume "\<exists>r. out = Returned r"
    with fillTupleBuffer_bounds[OF assms inv r] show "cursor_invariant s'" by simp }
qed

lemma open_corrupt:
  "open demo_os stub_zstd (FileSource_ctor ''/data/corrupt.zst'' ''zstd'') =
     (Returned (), corrupt_source)"
  by (simp add: corrupt_source_def open_def FileSource_ctor_def demo_os_simps demo_files_def
        stub_zstd_simps ifstream_ctor_def closed_stream_def Let_def)

theorem cursor_invariant_preserved_witness:
  "zstd_contract stub_zstd \<and>
   compressionType (FileSource_ctor ''/data/corrupt.zst'' ''zstd'' :: unit FileSource) = ''zstd'' \<and>
   open demo_os stub_zstd (FileSource_ctor ''/data/corrupt.zst'' ''zstd'') =
     (Returned (), corrupt_source) \<and>
   cursor_invariant corrupt_source \<and>
   decompressNextBlock stub_zstd corrupt_source =
     Some (Returned True,
           corrupt_source\<lparr>inputFile := (inputFile corrupt_source)\<lparr>unread := ''!xyz''\<rparr>,
                           compressedBuffer := ''abcd'',
                           decompressedBuffer := ''abcd'' @ replicate 4 (CHR 0x00),
                           decompressedSize := 4\<rparr>) \<and>
   fillTupleBuffer stub_zstd corrupt_source buf4 =
     Some (Returned (withBytes 4, ''abcd''), corrupt_read) \<and>
   cursor_invariant corrupt_read \<and>
   session stub_zstd [FillBuffer buf4] corrupt_source = Some (True, corrupt_read) \<and>
   session stub_zstd [FillBuffer buf4, FillBuffer buf4, FillBuffer buf4, DecodeNextBlock]
       corrupt_source =
     Some (False,
           corrupt_failed\<lparr>inputFile := (inputFile corrupt_failed)\<lparr>eofbit := True, failbit := True\<rparr>,
                           endOfCompressedStream := True\<rparr>) \<and>
   length (decompressedBuffer corrupt_failed) = ZSTD_DStreamOutSize stub_zstd \<and>
   decompressedSize corrupt_failed \<le> length (decompressedBuffer corrupt_failed)"
proof -
  have e1: "decompressNextBlock stub_zstd corrupt_source =
     Some (Returned True,
           corrupt_source\<lparr>inputFile := (inputFile corrupt_source)\<lparr>unread := ''!xyz''\<rparr>,
                           compressedBuffer := ''abcd'',
                           decompressedBuffer := ''abcd'' @ replicate 4 (CHR 0x00),
                           decompressedSize := 4\<rparr>)"
    by code_simp
  have e2: "fillTupleBuffer stub_zstd corrupt_source buf4 =
     Some (Returned (withBytes 4, ''abcd''), corrupt_read)"
    by code_simp
  have e3: "session stub_zstd [FillBuffer buf4] corrupt_source = Some (True, corrupt_read)"
    by code_simp
  have e4: "session stub_zstd [FillBuffer buf4, FillBuffer buf4, FillBuffer buf4, DecodeNextBlock]
       corrupt_source =
     Some (False,
           corrupt_failed\<lparr>inputFile := (inputFile corrupt_failed)\<lparr>eofbit := True, failbit := True\<rparr>,
                           endOfCompressedStream := True\<rparr>)"
    by code_simp
  have c: "compressionType (FileSource_ctor ''/data/corrupt.zst'' ''zstd'' :: unit FileSource)
             = ''zstd''"
    by (simp add: FileSource_ctor_def)
  note inst = cursor_invariant_preserved[OF stub_zstd_contract,
      of "FileSource_ctor ''/data/corrupt.zst'' ''zstd''" demo_os corrupt_source corrupt_source buf4]
  from inst c open_corrupt have i0: "cursor_invariant corrupt_source" by blast
  from inst i0 e2 have i1: "cursor_invariant corrupt_read" by blast
  from inst c open_corrupt e4
  have "length (decompressedBuffer
           (corrupt_failed\<lparr>inputFile := (inputFile corrupt_failed)\<lparr>eofbit := True, failbit := True\<rparr>,
                           endOfCompressedStream := True\<rparr>)) = ZSTD_DStreamOutSize stub_zstd \<and>
        decompressedSize
           (corrupt_failed\<lparr>inputFile := (inputFile corrupt_failed)\<lparr>eofbit := True, failbit := True\<rparr>,
                           endOfCompressedStream := True\<rparr>)
          \<le> length (decompressedBuffer
           (corrupt_failed\<lparr>inputFile := (inputFile corrupt_failed)\<lparr>eofbit := True, failbit := True\<rparr>,
                           endOfCompressedStream := True\<rparr>))"
    by blast
  then have b: "length (decompressedBuffer corrupt_failed) = ZSTD_DStreamOutSize stub_zstd"
    "decompressedSize corrupt_failed \<le> length (decompressedBuffer corrupt_failed)"
    by simp_all
  from i0 i1 e1 e2 e3 e4 b c open_corrupt stub_zstd_contract
  show ?thesis by (simp only: simp_thms)
qed

text \<open>
  C8 as stated fails on a call that raises: with the first chunk delivered and consumed
  (\<open>decompressedOffset = decompressedSize = 4\<close>), the next chunk is corrupt;
  \<open>decompressedSize\<close> is already reset when the library reports the error, and
  \<open>decompressedOffset\<close> is still 4.
\<close>

theorem cursor_invariant_counterexample:
  "cursor_invariant corrupt_read \<and>
   decompressNextBlock stub_zstd corrupt_read =
     Some (Threw (InvalidConfigParameter ''ZSTD decompression error: Data corruption detected''),
           corrupt_read\<lparr>inputFile := (inputFile corrupt_read)\<lparr>unread := []\<rparr>,
                         compressedBuffer := ''!xyz'',
                         decompressedSize := 0\<rparr>) \<and>
   fillTupleBuffer stub_zstd corrupt_read buf4 =
     Some (Threw (InvalidConfigParameter ''ZSTD decompression error: Data corruption detected''),
           corrupt_read\<lparr>inputFile := (inputFile corrupt_read)\<lparr>unread := []\<rparr>,
                         compressedBuffer := ''!xyz'',
                         decompressedSize := 0\<rparr>) \<and>
   \<not> cursor_invariant
       (corrupt_read\<lparr>inputFile := (inputFile corrupt_read)\<lparr>unread := []\<rparr>,
                      compressedBuffer := ''!xyz'',
                      decompressedSize := 0\<rparr>)"
proof -
  have e1: "decompressNextBlock stub_zstd corrupt_read =
     Some (Threw (InvalidConfigParameter ''ZSTD decompression error: Data corruption detected''),
           corrupt_read\<lparr>inputFile := (inputFile corrupt_read)\<lparr>unread := []\<rparr>,
                         compressedBuffer := ''!xyz'',
                         decompressedSize := 0\<rparr>)"
    by code_simp
  have e2: "fillTupleBuffer stub_zstd corrupt_read buf4 =
     Some (Threw (InvalidConfigParameter ''ZSTD decompression error: Data corruption detected''),
           corrupt_read\<lparr>inputFile := (inputFile corrupt_read)\<lparr>unread := []\<rparr>,
                         compressedBuffer := ''!xyz'',
                         decompressedSize := 0\<rparr>)"
    by code_simp
  have "cursor_invariant corrupt_read"
    by (simp add: cursor_invariant_def corrupt_read_def zstd_source_eq)
  moreover have "\<not> cursor_invariant
       (corrupt_read\<lparr>inputFile := (inputFile corrupt_read)\<lparr>unread := []\<rparr>,
                      compressedBuffer := ''!xyz'',
                      decompressedSize := 0\<rparr>)"
    by (simp add: cursor_invariant_def corrupt_read_def)
  ultimately show ?thesis using e1 e2 by (simp only: simp_thms)
qed

lemma failbit_idem: "failbit f \<Longrightarrow> f\<lparr>failbit := True\<rparr> = f"
  by (cases f) simp

lemma read_failed_stream:
  "failbit f \<Longrightarrow> istream_read f n = ([], f)"
  by (simp add: istream_read_def good_def failbit_idem)

lemma read_nothing_fails:
  "0 < n \<Longrightarrow> istream_read f n = ([], f') \<Longrightarrow> failbit f'"
  by (auto simp: istream_read_def Let_def split: if_splits)

text \<open>
  C3, as the code has it: when a call with a destination of capacity at least 1 has
  returned \<open>eos\<close> (in zstd mode: with \<open>endOfCompressedStream\<close> set), a call with
  any destination returns \<open>eos\<close> and leaves the object and the destination as they
  are, so nothing more is read and the same holds of every later call.
\<close>

theorem end_of_stream_stable:
  assumes "buf \<noteq> []" "fillTupleBuffer lib s buf = Some (Returned (eos, d), s')"
    and "compressionType s = ''zstd'' \<longrightarrow> endOfCompressedStream s'"
  shows "fillTupleBuffer lib s' buf2 = Some (Returned (eos, buf2), s')"
proof (cases "compressionType s = ''zstd''")
  case True
  with assms(2) obtain t s1 where
    loop: "fillLoop lib (length buf) 0 buf s = Some (Returned (t, d), s1)"
    and t: "t = 0"
    and s': "s' = s1\<lparr>totalNumBytesRead := totalNumBytesRead s1 + t\<rparr>"
    by (auto simp: fillTupleBuffer_def Let_def
             split: option.splits prod.splits outcome.splits if_splits)
  from s' t have s1: "s' = s1" by simp
  from fillLoop_post[OF loop] t assms(1)
  have ct: "compressionType s1 = compressionType s"
    and nb: "decompressNextBlock lib s = Some (Returned False, s1)"
    and off: "\<not> decompressedOffset s < decompressedSize s"
    by auto
  from decompressNextBlock_post[OF nb] off
  have off1: "\<not> decompressedOffset s1 < decompressedSize s1" by simp
  from assms(3) True s1 have ex: "endOfCompressedStream s1" by simp
  have "fillLoop lib (length buf2) 0 buf2 s1 = Some (Returned (0, buf2), s1)"
    using off1 decompressNextBlock_exhausted[OF ex, of lib]
    by (subst fillLoop.simps) simp
  then show ?thesis
    using True ct s1 by (simp add: fillTupleBuffer_def)
next
  case False
  obtain got f where rd: "istream_read (inputFile s) (length buf) = (got, f)"
    by (cases "istream_read (inputFile s) (length buf)")
  with assms(2) False have got: "got = []"
    and s': "s' = s\<lparr>inputFile := f, totalNumBytesRead := totalNumBytesRead s + 0\<rparr>"
    by (auto simp: fillTupleBuffer_def Let_def split: if_splits)
  from rd got assms(1) have "failbit f"
    using read_nothing_fails[of "length buf" "inputFile s" f] by simp
  then have "istream_read (inputFile s') (length buf2) = ([], inputFile s')"
    by (simp add: s' read_failed_stream)
  then show ?thesis
    using False by (simp add: fillTupleBuffer_def s' memcpy_nothing)
qed

theorem end_of_stream_stable_witness:
  "buf4 \<noteq> [] \<and>
   fillTupleBuffer stub_zstd hello_at_end buf4 =
     Some (Returned (eos, buf4),
           hello_at_end\<lparr>inputFile := (inputFile hello_at_end)\<lparr>eofbit := True, failbit := True\<rparr>\<rparr>) \<and>
   compressionType hello_at_end \<noteq> ''zstd'' \<and>
   fillTupleBuffer stub_zstd
       (hello_at_end\<lparr>inputFile := (inputFile hello_at_end)\<lparr>eofbit := True, failbit := True\<rparr>\<rparr>)
       ''abcdefgh'' =
     Some (Returned (eos, ''abcdefgh''),
           hello_at_end\<lparr>inputFile := (inputFile hello_at_end)\<lparr>eofbit := True, failbit := True\<rparr>\<rparr>) \<and>
   fillTupleBuffer stub_zstd empty_source buf4 =
     Some (Returned (eos, buf4),
           empty_source\<lparr>inputFile := (inputFile empty_source)\<lparr>eofbit := True, failbit := True\<rparr>,
                         endOfCompressedStream := True\<rparr>) \<and>
   compressionType empty_source = ''zstd'' \<and>
   fillTupleBuffer stub_zstd
       (empty_source\<lparr>inputFile := (inputFile empty_source)\<lparr>eofbit := True, failbit := True\<rparr>,
                      endOfCompressedStream := True\<rparr>)
       ''abcdefgh'' =
     Some (Returned (eos, ''abcdefgh''),
           empty_source\<lparr>inputFile := (inputFile empty_source)\<lparr>eofbit := True, failbit := True\<rparr>,
                         endOfCompressedStream := True\<rparr>)"
proof -
  have b: "buf4 \<noteq> []" by (simp add: buf4_def)
  have e1: "fillTupleBuffer stub_zstd hello_at_end buf4 =
     Some (Returned (eos, buf4),
           hello_at_end\<lparr>inputFile := (inputFile hello_at_end)\<lparr>eofbit := True, failbit := True\<rparr>\<rparr>)"
    by code_simp
  have e2: "fillTupleBuffer stub_zstd empty_source buf4 =
     Some (Returned (eos, buf4),
           empty_source\<lparr>inputFile := (inputFile empty_source)\<lparr>eofbit := True, failbit := True\<rparr>,
                         endOfCompressedStream := True\<rparr>)"
    by code_simp
  have c: "compressionType hello_at_end \<noteq> ''zstd''" "compressionType empty_source = ''zstd''"
    by (simp_all add: hello_at_end_def hello_source_eq empty_source_def zstd_source_eq)
  have a1: "fillTupleBuffer stub_zstd
       (hello_at_end\<lparr>inputFile := (inputFile hello_at_end)\<lparr>eofbit := True, failbit := True\<rparr>\<rparr>)
       ''abcdefgh'' =
     Some (Returned (eos, ''abcdefgh''),
           hello_at_end\<lparr>inputFile := (inputFile hello_at_end)\<lparr>eofbit := True, failbit := True\<rparr>\<rparr>)"
    using end_of_stream_stable[OF b e1] c(1) by blast
  have a2: "fillTupleBuffer stub_zstd
       (empty_source\<lparr>inputFile := (inputFile empty_source)\<lparr>eofbit := True, failbit := True\<rparr>,
                      endOfCompressedStream := True\<rparr>)
       ''abcdefgh'' =
     Some (Returned (eos, ''abcdefgh''),
           empty_source\<lparr>inputFile := (inputFile empty_source)\<lparr>eofbit := True, failbit := True\<rparr>,
                         endOfCompressedStream := True\<rparr>)"
    by (rule end_of_stream_stable[OF b e2]) simp
  from b e1 e2 c a1 a2 show ?thesis by (simp only: simp_thms)
qed

text \<open>
  C3 as stated fails: a call with a destination of capacity 0 returns \<open>eos\<close> while the
  stream holds all of \<open>HelloWorld\<close>, and the next call, with capacity 4, returns four
  bytes.
\<close>

theorem end_of_stream_stable_counterexample:
  "fillTupleBuffer stub_zstd hello_source [] = Some (Returned (eos, []), hello_source) \<and>
   fillTupleBuffer stub_zstd hello_source buf4 =
     Some (Returned (withBytes 4, ''Hell''),
           hello_source\<lparr>inputFile := (inputFile hello_source)\<lparr>unread := ''oWorld''\<rparr>,
                         totalNumBytesRead := 4\<rparr>)"
  by code_simp

text \<open>
  C2 fails on the code: the loop of \<^verbatim>\<open>fillTupleBuffer\<close> stops when
  \<^verbatim>\<open>decompressNextBlock\<close> returns false, which it also does when a chunk decodes
  to nothing. On a stream whose first chunk decodes to nothing the call returns \<open>eos\<close>
  with four bytes unread and \<open>endOfCompressedStream\<close> unset, and the next call delivers
  them; on a stream whose second chunk decodes to nothing the call returns 2 bytes for a
  destination of 4 with two bytes unread.
\<close>

theorem fill_stops_on_empty_chunk:
  "fillTupleBuffer stub_zstd skip_source buf4 =
     Some (Returned (eos, buf4),
           skip_source\<lparr>inputFile := (inputFile skip_source)\<lparr>unread := ''abcd''\<rparr>,
                        compressedBuffer := ''____''\<rparr>) \<and>
   good (inputFile (skip_source\<lparr>inputFile := (inputFile skip_source)\<lparr>unread := ''abcd''\<rparr>,
                                  compressedBuffer := ''____''\<rparr>)) \<and>
   \<not> endOfCompressedStream
       (skip_source\<lparr>inputFile := (inputFile skip_source)\<lparr>unread := ''abcd''\<rparr>,
                     compressedBuffer := ''____''\<rparr>) \<and>
   fillTupleBuffer stub_zstd
       (skip_source\<lparr>inputFile := (inputFile skip_source)\<lparr>unread := ''abcd''\<rparr>,
                     compressedBuffer := ''____''\<rparr>) buf4 =
     Some (Returned (withBytes 4, ''abcd''),
           skip_source\<lparr>inputFile := (inputFile skip_source)\<lparr>unread := []\<rparr>,
                        compressedBuffer := ''abcd'',
                        decompressedBuffer := ''abcd'' @ replicate 4 (CHR 0x00),
                        decompressedOffset := 4, decompressedSize := 4,
                        totalNumBytesRead := 4\<rparr>) \<and>
   fillTupleBuffer stub_zstd short_source buf4 =
     Some (Returned (withBytes 2, ''ab'' @ replicate 2 (CHR 0x00)),
           short_source\<lparr>inputFile := (inputFile short_source)\<lparr>unread := ''cd''\<rparr>,
                         compressedBuffer := ''____'',
                         decompressedBuffer := ''ab'' @ replicate 6 (CHR 0x00),
                         totalNumBytesRead := 2\<rparr>) \<and>
   2 < length buf4 \<and>
   \<not> endOfCompressedStream
       (short_source\<lparr>inputFile := (inputFile short_source)\<lparr>unread := ''cd''\<rparr>,
                      compressedBuffer := ''____'',
                      decompressedBuffer := ''ab'' @ replicate 6 (CHR 0x00),
                      totalNumBytesRead := 2\<rparr>)"
  by code_simp

lemma ifstream_ctor_cases:
  "(realpath_result = None \<or> (\<exists>p. realpath_result = Some p \<and> files env p = None) \<longrightarrow>
      ifstream_ctor env realpath_result = closed_stream\<lparr>failbit := True\<rparr>) \<and>
   (\<forall>p content. realpath_result = Some p \<and> files env p = Some content \<longrightarrow>
      ifstream_ctor env realpath_result = closed_stream\<lparr>is_open := True, unread := content\<rparr>)"
  by (auto simp: ifstream_ctor_def)

text \<open>
  C6, as the code has it: when \<^verbatim>\<open>realpath\<close> fails or the resolved path cannot be
  opened, \<^verbatim>\<open>open\<close> raises \<^verbatim>\<open>InvalidConfigParameter\<close>, the configuration
  error of the code, with the configured path in its message; when it is the resolved
  path that cannot be opened, the message ends with the system's error text of that
  open. No stream is open afterwards.
\<close>

theorem open_failure_is_config_error:
  assumes "realpath env (filePath s) = None \<or>
           (\<exists>p. realpath env (filePath s) = Some p \<and> files env p = None)"
  shows "\<exists>text.
           open env lib s =
             (Threw (InvalidConfigParameter
                       (''Could not determine absolute pathname: '' @ filePath s @ '' - ''
                          @ text)),
              s\<lparr>inputFile := closed_stream\<lparr>failbit := True\<rparr>\<rparr>) \<and>
           kind_of (InvalidConfigParameter
                       (''Could not determine absolute pathname: '' @ filePath s @ '' - ''
                          @ text)) = ConfigurationError \<and>
           (\<forall>p. realpath env (filePath s) = Some p \<and> files env p = None \<longrightarrow>
                text = errnoMessage env (Some p)) \<and>
           \<not> is_open (inputFile (snd (open env lib s)))"
proof -
  from assms have "ifstream_ctor env (realpath env (filePath s)) = closed_stream\<lparr>failbit := True\<rparr>"
    using ifstream_ctor_cases[of "realpath env (filePath s)" env] by blast
  then have "open env lib s =
      (Threw (InvalidConfigParameter
                (''Could not determine absolute pathname: '' @ filePath s @ '' - ''
                   @ errnoMessage env (realpath env (filePath s)))),
       s\<lparr>inputFile := closed_stream\<lparr>failbit := True\<rparr>\<rparr>)"
    by (simp add: open_def Let_def closed_stream_def)
  then show ?thesis
    by (intro exI[of _ "errnoMessage env (realpath env (filePath s))"])
       (auto simp: closed_stream_def)
qed

theorem open_failure_is_config_error_witness:
  "realpath demo_os (filePath (FileSource_ctor ''/data/secret.txt'' ''none'' :: unit FileSource))
     = Some ''/data/secret.txt'' \<and>
   files demo_os ''/data/secret.txt'' = None \<and>
   open demo_os stub_zstd (FileSource_ctor ''/data/secret.txt'' ''none'') =
     (Threw (InvalidConfigParameter
        ''Could not determine absolute pathname: /data/secret.txt - Permission denied''),
      (FileSource_ctor ''/data/secret.txt'' ''none'')
        \<lparr>inputFile := closed_stream\<lparr>failbit := True\<rparr>\<rparr>) \<and>
   realpath demo_os (filePath (FileSource_ctor ''/nope'' ''none'' :: unit FileSource)) = None \<and>
   (\<exists>text. open demo_os stub_zstd (FileSource_ctor ''/nope'' ''none'') =
      (Threw (InvalidConfigParameter (''Could not determine absolute pathname: /nope - '' @ text)),
       (FileSource_ctor ''/nope'' ''none'')\<lparr>inputFile := closed_stream\<lparr>failbit := True\<rparr>\<rparr>))"
proof -
  have h: "realpath demo_os (filePath (FileSource_ctor ''/data/secret.txt'' ''none''
                                         :: unit FileSource)) = Some ''/data/secret.txt''"
    "files demo_os ''/data/secret.txt'' = None"
    by (simp_all add: FileSource_ctor_def demo_os_simps demo_files_def)
  have n: "realpath demo_os (filePath (FileSource_ctor ''/nope'' ''none'' :: unit FileSource)) = None"
    by (simp add: FileSource_ctor_def demo_os_simps demo_files_def)
  have p: "filePath (FileSource_ctor ''/data/secret.txt'' ''none'' :: unit FileSource)
             = ''/data/secret.txt''"
    "filePath (FileSource_ctor ''/nope'' ''none'' :: unit FileSource) = ''/nope''"
    by (simp_all add: FileSource_ctor_def)
  from h have "realpath demo_os (filePath (FileSource_ctor ''/data/secret.txt'' ''none''
                                         :: unit FileSource)) = None \<or>
     (\<exists>p. realpath demo_os (filePath (FileSource_ctor ''/data/secret.txt'' ''none''
                                         :: unit FileSource)) = Some p \<and> files demo_os p = None)"
    by blast
  from open_failure_is_config_error[OF this, of stub_zstd] h
  have a1: "open demo_os stub_zstd (FileSource_ctor ''/data/secret.txt'' ''none'') =
     (Threw (InvalidConfigParameter
        (''Could not determine absolute pathname: '' @ ''/data/secret.txt'' @ '' - ''
           @ errnoMessage demo_os (Some ''/data/secret.txt''))),
      (FileSource_ctor ''/data/secret.txt'' ''none'')
        \<lparr>inputFile := closed_stream\<lparr>failbit := True\<rparr>\<rparr>)"
    unfolding p by blast
  from open_failure_is_config_error[OF disjI1[OF n], of stub_zstd]
  have a2: "\<exists>text. open demo_os stub_zstd (FileSource_ctor ''/nope'' ''none'') =
      (Threw (InvalidConfigParameter
                (''Could not determine absolute pathname: '' @ ''/nope'' @ '' - '' @ text)),
       (FileSource_ctor ''/nope'' ''none'')\<lparr>inputFile := closed_stream\<lparr>failbit := True\<rparr>\<rparr>)"
    unfolding p by blast
  from a1 a2 h n show ?thesis by (simp add: demo_os_simps)
qed

text \<open>
  C6 as stated fails: on a path that resolves and cannot be opened \<^verbatim>\<open>open\<close> raises
  a configuration error, not an I/O error.
\<close>

theorem open_failure_counterexample:
  "fst (open demo_os stub_zstd (FileSource_ctor ''/data/secret.txt'' ''none'')) =
     Threw (InvalidConfigParameter
        ''Could not determine absolute pathname: /data/secret.txt - Permission denied'') \<and>
   kind_of (InvalidConfigParameter
        ''Could not determine absolute pathname: /data/secret.txt - Permission denied'')
     \<noteq> IOError"
  by (simp add: open_def FileSource_ctor_def demo_os_simps demo_files_def ifstream_ctor_def
        closed_stream_def Let_def)

text \<open>
  C5, as the code has it: with a compression value other than \<open>zstd\<close>, \<open>none\<close> and
  the empty string, \<^verbatim>\<open>open\<close> on a file that opens raises
  \<^verbatim>\<open>InvalidConfigParameter\<close> with the value in its message and leaves the input
  stream it has just opened open, until \<^verbatim>\<open>close\<close>; on a file that does not open
  the error is the one about the path, and no stream is open.
\<close>

theorem open_unsupported_compression:
  assumes "compressionType s \<noteq> ''zstd''" "compressionType s \<noteq> ''none''"
    "compressionType s \<noteq> []"
  shows "(\<forall>p content. realpath env (filePath s) = Some p \<and> files env p = Some content \<longrightarrow>
            open env lib s =
              (Threw (InvalidConfigParameter
                        (''Unsupported compression type: '' @ compressionType s)),
               s\<lparr>inputFile := closed_stream\<lparr>is_open := True, unread := content\<rparr>\<rparr>) \<and>
            is_open (inputFile (snd (open env lib s))) \<and>
            \<not> is_open (inputFile (close (snd (open env lib s))))) \<and>
         (realpath env (filePath s) = None \<or>
          (\<exists>p. realpath env (filePath s) = Some p \<and> files env p = None) \<longrightarrow>
            open env lib s =
              (Threw (InvalidConfigParameter
                        (''Could not determine absolute pathname: '' @ filePath s @ '' - ''
                           @ errnoMessage env (realpath env (filePath s)))),
               s\<lparr>inputFile := closed_stream\<lparr>failbit := True\<rparr>\<rparr>) \<and>
            \<not> is_open (inputFile (snd (open env lib s))))"
proof (intro conjI allI impI)
  fix p content
  assume "realpath env (filePath s) = Some p \<and> files env p = Some content"
  then have f: "ifstream_ctor env (realpath env (filePath s)) =
                  closed_stream\<lparr>is_open := True, unread := content\<rparr>"
    using ifstream_ctor_cases[of "realpath env (filePath s)" env] by blast
  with assms show op: "open env lib s =
              (Threw (InvalidConfigParameter
                        (''Unsupported compression type: '' @ compressionType s)),
               s\<lparr>inputFile := closed_stream\<lparr>is_open := True, unread := content\<rparr>\<rparr>)"
    by (simp add: open_def Let_def closed_stream_def)
  then show "is_open (inputFile (snd (open env lib s)))"
    "\<not> is_open (inputFile (close (snd (open env lib s))))"
    by (simp_all add: close_def ifstream_close_def)
next
  assume "realpath env (filePath s) = None \<or>
          (\<exists>p. realpath env (filePath s) = Some p \<and> files env p = None)"
  then have f: "ifstream_ctor env (realpath env (filePath s)) = closed_stream\<lparr>failbit := True\<rparr>"
    using ifstream_ctor_cases[of "realpath env (filePath s)" env] by blast
  then show op: "open env lib s =
              (Threw (InvalidConfigParameter
                        (''Could not determine absolute pathname: '' @ filePath s @ '' - ''
                           @ errnoMessage env (realpath env (filePath s)))),
               s\<lparr>inputFile := closed_stream\<lparr>failbit := True\<rparr>\<rparr>)"
    by (simp add: open_def Let_def closed_stream_def)
  then show "\<not> is_open (inputFile (snd (open env lib s)))"
    by (simp add: closed_stream_def)
qed


theorem open_unsupported_compression_witness:
  "compressionType gzip_source \<noteq> ''zstd'' \<and> compressionType gzip_source \<noteq> ''none'' \<and>
   compressionType gzip_source \<noteq> [] \<and>
   realpath demo_os (filePath gzip_source) = Some ''/data/hello.txt'' \<and>
   files demo_os ''/data/hello.txt'' = Some ''HelloWorld'' \<and>
   open demo_os stub_zstd gzip_source =
     (Threw (InvalidConfigParameter ''Unsupported compression type: gzip''),
      gzip_source\<lparr>inputFile := closed_stream\<lparr>is_open := True, unread := ''HelloWorld''\<rparr>\<rparr>) \<and>
   compressionType gzip_missing \<noteq> ''zstd'' \<and> compressionType gzip_missing \<noteq> ''none'' \<and>
   compressionType gzip_missing \<noteq> [] \<and>
   realpath demo_os (filePath gzip_missing) = None \<and>
   open demo_os stub_zstd gzip_missing =
     (Threw (InvalidConfigParameter
        ''Could not determine absolute pathname: /nope - Bad address''),
      gzip_missing\<lparr>inputFile := closed_stream\<lparr>failbit := True\<rparr>\<rparr>)"
proof -
  have c: "compressionType gzip_source \<noteq> ''zstd''" "compressionType gzip_source \<noteq> ''none''"
    "compressionType gzip_source \<noteq> []"
    "compressionType gzip_missing \<noteq> ''zstd''" "compressionType gzip_missing \<noteq> ''none''"
    "compressionType gzip_missing \<noteq> []"
    by (simp_all add: gzip_source_def gzip_missing_def FileSource_ctor_def)
  have p: "realpath demo_os (filePath gzip_source) = Some ''/data/hello.txt''"
    "files demo_os ''/data/hello.txt'' = Some ''HelloWorld''"
    "realpath demo_os (filePath gzip_missing) = None"
    by (simp_all add: gzip_source_def gzip_missing_def FileSource_ctor_def demo_os_simps
          demo_files_def)
  have v: "compressionType gzip_source = ''gzip''" "filePath gzip_missing = ''/nope''"
    by (simp_all add: gzip_source_def gzip_missing_def FileSource_ctor_def)
  from open_unsupported_compression[OF c(1,2,3), of demo_os stub_zstd] p(1,2)
  have a1: "open demo_os stub_zstd gzip_source =
     (Threw (InvalidConfigParameter (''Unsupported compression type: '' @ compressionType gzip_source)),
      gzip_source\<lparr>inputFile := closed_stream\<lparr>is_open := True, unread := ''HelloWorld''\<rparr>\<rparr>)"
    by blast
  from open_unsupported_compression[OF c(4,5,6), of demo_os stub_zstd] p(3)
  have a2: "open demo_os stub_zstd gzip_missing =
     (Threw (InvalidConfigParameter
        (''Could not determine absolute pathname: '' @ filePath gzip_missing @ '' - ''
           @ errnoMessage demo_os (realpath demo_os (filePath gzip_missing)))),
      gzip_missing\<lparr>inputFile := closed_stream\<lparr>failbit := True\<rparr>\<rparr>)"
    by blast
  from a1 a2 c p show ?thesis unfolding v by (simp add: demo_os_simps)
qed

text \<open>
  C5 as stated fails: after the failed \<^verbatim>\<open>open\<close> with \<open>gzip\<close> on a file that
  exists the input stream is open; and with \<open>gzip\<close> on a path that does not resolve
  the error does not name the compression value.
\<close>

theorem open_unsupported_compression_counterexample:
  "open demo_os stub_zstd (FileSource_ctor ''/data/hello.txt'' ''gzip'') =
     (Threw (InvalidConfigParameter ''Unsupported compression type: gzip''),
      (FileSource_ctor ''/data/hello.txt'' ''gzip'')
        \<lparr>inputFile := \<lparr>is_open = True, unread = ''HelloWorld'', eofbit = False,
                        failbit = False\<rparr>\<rparr>) \<and>
   is_open (inputFile (snd (open demo_os stub_zstd
                              (FileSource_ctor ''/data/hello.txt'' ''gzip'')))) \<and>
   fst (open demo_os stub_zstd (FileSource_ctor ''/nope'' ''gzip'')) =
     Threw (InvalidConfigParameter
        ''Could not determine absolute pathname: /nope - Bad address'')"
  by (simp add: open_def FileSource_ctor_def demo_os_simps demo_files_def ifstream_ctor_def
        closed_stream_def Let_def)

end
